theory Spec2Isabelle
  imports Complex_Main "HOL-Library.Char_ord" "HOL-Library.List_Lexorder" "HOL-Library.AList"
begin

section \<open>interaction-evolution: the helpers of \<^verbatim>\<open>data_funcs.py\<close>\<close>

text \<open>
  The module is a handful of functions over pandas data frames, NumPy arrays and
  \<^verbatim>\<open>datetime\<close>. Each one is embedded as a HOL function of the same name. The
  library calls they are made of (\<^verbatim>\<open>strptime\<close>, \<^verbatim>\<open>np.convolve\<close>, column
  assignment, \<^verbatim>\<open>groupby(...).mean()\<close>) are embedded next to them, as far as the
  module uses them.

  Conventions of the embedding:
  \<^item> a Python exception is a value of \<open>error\<close>, and a function that can raise returns
    \<open>error + 'a\<close> with \<open>Inl\<close> for the exception;
  \<^item> a Python \<^verbatim>\<open>str\<close> is a \<open>string\<close>; its characters range over the code points
    below 256, where the decimal digits are \<open>0\<close> to \<open>9\<close> only;
  \<^item> a finite \<^verbatim>\<open>float64\<close> is the rational number it denotes. The arithmetic of
    \<open>moving_average\<close> rounds every result to the nearest \<^verbatim>\<open>float64\<close>; the mean of a
    group of integers is kept as the exact quotient, of which the \<^verbatim>\<open>float64\<close> that
    pandas returns is the rounding. Infinities and NaN are outside the embedding.
\<close>

datatype error = ValueError | KeyError | AttributeError | TypeError | Unmodelled

text \<open>An operation on every element of a sequence stops at the first exception.\<close>

fun map_result :: "('a \<Rightarrow> error + 'b) \<Rightarrow> 'a list \<Rightarrow> error + 'b list" where
  "map_result f [] = Inr []"
| "map_result f (x # xs) =
     (case f x of
        Inl e \<Rightarrow> Inl e
      | Inr y \<Rightarrow> (case map_result f xs of Inl e \<Rightarrow> Inl e | Inr ys \<Rightarrow> Inr (y # ys)))"

subsection \<open>\<^verbatim>\<open>datetime.datetime.strptime\<close>\<close>

text \<open>
  A \<^verbatim>\<open>datetime.datetime\<close> value, without the microsecond and time-zone fields, which
  the module never sets.
\<close>

record datetime =
  year :: nat
  month :: nat
  day :: nat
  hour :: nat
  minute :: nat
  second :: nat

text \<open>
  \<^verbatim>\<open>strptime\<close> compiles the format into a regular expression, matches it at the start
  of the string with \<^verbatim>\<open>re.match\<close>, rejects the string when nothing matches or when
  the match leaves characters over, converts the groups with \<^verbatim>\<open>int\<close> and builds the
  \<^verbatim>\<open>datetime\<close>, whose constructor checks the ranges.

  Character classes: \<open>chr_range lo hi\<close> is \<^verbatim>\<open>[lo-hi]\<close>, \<open>is_digit\<close> is \<^verbatim>\<open>\d\<close> and
  \<open>is_space\<close> is \<^verbatim>\<open>\s\<close>, on the code points below 256.
\<close>

type_synonym cclass = "char \<Rightarrow> bool"

definition chr_range :: "char \<Rightarrow> char \<Rightarrow> cclass" where
  "chr_range lo hi c \<longleftrightarrow> lo \<le> c \<and> c \<le> hi"

definition is_digit :: cclass where
  "is_digit = chr_range (CHR ''0'') (CHR ''9'')"

definition is_space :: cclass where
  "is_space c \<longleftrightarrow> c \<in> set [CHR 0x09, CHR 0x0A, CHR 0x0B, CHR 0x0C, CHR 0x0D,
     CHR 0x1C, CHR 0x1D, CHR 0x1E, CHR 0x1F, CHR 0x20, CHR 0x85, CHR 0xA0]"

text \<open>
  The regular expression of each directive, from the table of \<^verbatim>\<open>_strptime.TimeRE\<close>:
  \<^verbatim>\<open>Y: \d\d\d\d\<close>, \<^verbatim>\<open>m: 1[0-2]|0[1-9]|[1-9]\<close>,
  \<^verbatim>\<open>d: 3[0-1]|[1-2]\d|0[1-9]|[1-9]| [1-9]\<close>, \<^verbatim>\<open>H: 2[0-3]|[0-1]\d|\d\<close>,
  \<^verbatim>\<open>M: [0-5]\d|\d\<close>, \<^verbatim>\<open>S: 6[0-1]|[0-5]\d|\d\<close>. Every alternative is a sequence of
  character classes; the alternatives are tried in this order. Only the six directives
  that the formats of \<^verbatim>\<open>date_to_datetime\<close> use are in the table.
\<close>

definition directive :: "char \<Rightarrow> cclass list list" where
  "directive c =
     (if c = CHR ''Y'' then [[is_digit, is_digit, is_digit, is_digit]]
      else if c = CHR ''m'' then
        [[(=) CHR ''1'', chr_range CHR ''0'' CHR ''2''], [(=) CHR ''0'', chr_range CHR ''1'' CHR ''9''],
         [chr_range CHR ''1'' CHR ''9'']]
      else if c = CHR ''d'' then
        [[(=) CHR ''3'', chr_range CHR ''0'' CHR ''1''], [chr_range CHR ''1'' CHR ''2'', is_digit],
         [(=) CHR ''0'', chr_range CHR ''1'' CHR ''9''], [chr_range CHR ''1'' CHR ''9''],
         [(=) CHR '' '', chr_range CHR ''1'' CHR ''9'']]
      else if c = CHR ''H'' then
        [[(=) CHR ''2'', chr_range CHR ''0'' CHR ''3''], [chr_range CHR ''0'' CHR ''1'', is_digit],
         [is_digit]]
      else if c = CHR ''M'' then
        [[chr_range CHR ''0'' CHR ''5'', is_digit], [is_digit]]
      else if c = CHR ''S'' then
        [[(=) CHR ''6'', chr_range CHR ''0'' CHR ''1''], [chr_range CHR ''0'' CHR ''5'', is_digit],
         [is_digit]]
      else [])"

text \<open>
  The compiled format: a directive, a run of whitespace (compiled to \<^verbatim>\<open>\s+\<close>) or a
  literal character.
\<close>

datatype tok = Dir char | Ws | Lit char

function pattern :: "string \<Rightarrow> tok list" where
  "pattern [] = []"
| "pattern (c # s) =
     (if c = CHR ''%'' then (case s of [] \<Rightarrow> [Dir c] | d # s' \<Rightarrow> Dir d # pattern s')
      else if is_space c then Ws # pattern (dropWhile is_space s)
      else Lit c # pattern s)"
  by pat_completeness auto
termination
  by (relation "measure length") (auto simp: length_dropWhile_le less_Suc_eq_le)

text \<open>
  Matching with backtracking: every function returns the list of all ways to match, in
  the order in which the regular-expression engine tries them, so that the head of the
  list is the match \<^verbatim>\<open>re.match\<close> finds. A way to match is the matched text (for
  a directive: its group) and the rest of the input. \<open>spaces\<close> is the greedy
  \<^verbatim>\<open>\s+\<close>: the longest run first.
\<close>

fun match_seq :: "cclass list \<Rightarrow> string \<Rightarrow> (string \<times> string) option" where
  "match_seq [] s = Some ([], s)"
| "match_seq (p # ps) [] = None"
| "match_seq (p # ps) (c # s) =
     (if p c then map_option (\<lambda>(m, r). (c # m, r)) (match_seq ps s) else None)"

definition match_alts :: "cclass list list \<Rightarrow> string \<Rightarrow> (string \<times> string) list" where
  "match_alts alts s = List.map_filter (\<lambda>alt. match_seq alt s) alts"

fun spaces :: "string \<Rightarrow> string list" where
  "spaces [] = []"
| "spaces (c # s) = (if is_space c then spaces s @ [s] else [])"

fun re_match :: "tok list \<Rightarrow> string \<Rightarrow> ((char \<times> string) list \<times> string) list" where
  "re_match [] s = [([], s)]"
| "re_match (Dir c # ts) s =
     concat (map (\<lambda>(m, r). map (\<lambda>(gs, r'). ((c, m) # gs, r')) (re_match ts r))
       (match_alts (directive c) s))"
| "re_match (Ws # ts) s = concat (map (re_match ts) (spaces s))"
| "re_match (Lit c # ts) s =
     (case s of [] \<Rightarrow> [] | x # r \<Rightarrow> if x = c then re_match ts r else [])"

text \<open>
  \<^verbatim>\<open>int(found_dict['d'])\<close> on a group, which is made of digits after at most one
  leading blank (which \<^verbatim>\<open>int\<close> strips); a field without a group keeps its default.
\<close>

definition py_int :: "string \<Rightarrow> nat" where
  "py_int s = foldl (\<lambda>n c. 10 * n + (of_char c - 48)) 0 (filter is_digit s)"

definition found :: "(char \<times> string) list \<Rightarrow> char \<Rightarrow> nat \<Rightarrow> nat" where
  "found gs c dflt = (case map_of gs c of None \<Rightarrow> dflt | Some m \<Rightarrow> py_int m)"

text \<open>
  The range checks of the \<^verbatim>\<open>date\<close> and \<^verbatim>\<open>datetime\<close> constructors; each failure is
  a \<^verbatim>\<open>ValueError\<close>.
\<close>

definition is_leap :: "nat \<Rightarrow> bool" where
  "is_leap y \<longleftrightarrow> y mod 4 = 0 \<and> (y mod 100 \<noteq> 0 \<or> y mod 400 = 0)"

definition days_in_month :: "nat \<Rightarrow> nat \<Rightarrow> nat" where
  "days_in_month y m =
     (if m = 2 \<and> is_leap y then 29
      else [0, 31, 28, 31, 30, 31, 30, 31, 31, 30, 31, 30, 31] ! m)"

definition new_datetime :: "nat \<Rightarrow> nat \<Rightarrow> nat \<Rightarrow> nat \<Rightarrow> nat \<Rightarrow> nat \<Rightarrow> error + datetime" where
  "new_datetime y m d H M S =
     (if \<not> (1 \<le> y \<and> y \<le> 9999) then Inl ValueError
      else if \<not> (1 \<le> m \<and> m \<le> 12) then Inl ValueError
      else if \<not> (1 \<le> d \<and> d \<le> days_in_month y m) then Inl ValueError
      else if \<not> H \<le> 23 then Inl ValueError
      else if \<not> M \<le> 59 then Inl ValueError
      else if \<not> S \<le> 59 then Inl ValueError
      else Inr \<lparr>year = y, month = m, day = d, hour = H, minute = M, second = S\<rparr>)"

text \<open>
  \<^verbatim>\<open>strptime(data_string, format)\<close>. A format with a directive outside the table is
  outside the embedding and gives \<open>Unmodelled\<close>. The defaults are those of
  \<^verbatim>\<open>_strptime\<close>: 1900-01-01 00:00:00.
\<close>

definition modelled :: "tok list \<Rightarrow> bool" where
  "modelled ts \<longleftrightarrow> (\<forall>t \<in> set ts. case t of Dir c \<Rightarrow> c \<in> set ''YmdHMS'' | _ \<Rightarrow> True)"

definition strptime :: "string \<Rightarrow> string \<Rightarrow> error + datetime" where
  "strptime data_string format =
     (if \<not> modelled (pattern format) then Inl Unmodelled
      else case re_match (pattern format) data_string of
        [] \<Rightarrow> Inl ValueError
      | (gs, rest) # _ \<Rightarrow>
          if rest \<noteq> [] then Inl ValueError
          else new_datetime (found gs CHR ''Y'' 1900) (found gs CHR ''m'' 1)
                 (found gs CHR ''d'' 1) (found gs CHR ''H'' 0) (found gs CHR ''M'' 0)
                 (found gs CHR ''S'' 0))"

subsection \<open>\<^verbatim>\<open>date_to_datetime\<close>\<close>

text \<open>
  \<^verbatim>\<open>date[:-4]\<close> is the string without its last four characters, and the empty string
  when there are fewer than four. \<^verbatim>\<open>except(ValueError)\<close> catches that exception only.
\<close>

definition date_to_datetime :: "string \<Rightarrow> error + datetime" where
  "date_to_datetime date =
     (case strptime (take (length date - 4) date) ''%Y-%m-%d %H:%M:%S'' of
        Inr dt \<Rightarrow> Inr dt
      | Inl ValueError \<Rightarrow> strptime date ''%Y-%m-%d''
      | Inl e \<Rightarrow> Inl e)"

subsection \<open>\<^verbatim>\<open>binarise\<close>\<close>

text \<open>
  \<^verbatim>\<open>np.array([int(x==value) for x in data_array])\<close>: one output element per input
  element, \<^verbatim>\<open>int(True) = 1\<close> and \<^verbatim>\<open>int(False) = 0\<close>.
\<close>

definition binarise :: "'a list \<Rightarrow> 'a \<Rightarrow> int list" where
  "binarise data_array v = map (\<lambda>x. if x = v then 1 else 0) data_array"

subsection \<open>\<^verbatim>\<open>float64\<close> arithmetic\<close>

text \<open>
  IEEE 754 binary64 with rounding to nearest, ties to even. \<open>ilog2 x\<close> is the exponent
  of a positive \<open>x\<close>: the integer \<open>e\<close> with \<open>2^e \<le> x < 2^(e+1)\<close>, found from the
  bit lengths of numerator and denominator. A number is rounded to a multiple of
  \<open>2^(e - 52)\<close>, where the exponent is not taken below -1022 (the subnormal numbers).
  \<open>fl64\<close> is \<open>None\<close> when the rounded value has an exponent above 1023, where the
  hardware gives an infinity.
\<close>

definition pow2 :: "int \<Rightarrow> rat" where
  "pow2 p = (if 0 \<le> p then 2 ^ nat p else 1 / 2 ^ nat (- p))"

function bit_length :: "int \<Rightarrow> nat" where
  "bit_length n = (if n \<le> 0 then 0 else Suc (bit_length (n div 2)))"
  by pat_completeness auto
termination
  by (relation "measure nat") auto

definition ilog2 :: "rat \<Rightarrow> int" where
  "ilog2 x =
     (let (n, d) = quotient_of x;
          e = int (bit_length n) - int (bit_length d)
      in if pow2 e \<le> x then e else e - 1)"

definition round_half_even :: "rat \<Rightarrow> int" where
  "round_half_even y =
     (let f = \<lfloor>y\<rfloor>; d = y - of_int f
      in if d < 1 / 2 then f else if 1 / 2 < d then f + 1 else if even f then f else f + 1)"

definition fl64 :: "rat \<Rightarrow> rat option" where
  "fl64 x =
     (if x = 0 then Some 0
      else
        let q = pow2 (max (ilog2 \<bar>x\<bar>) (- 1022) - 52);
            y = of_int (round_half_even (x / q)) * q
        in if y = 0 \<or> ilog2 \<bar>y\<bar> < 1024 then Some y else None)"

definition checked :: "rat option \<Rightarrow> error + rat" where
  "checked r = (case r of None \<Rightarrow> Inl Unmodelled | Some y \<Rightarrow> Inr y)"

definition float64 :: "rat \<Rightarrow> error + rat" where
  "float64 x = checked (fl64 x)"

subsection \<open>\<^verbatim>\<open>moving_average\<close>\<close>

text \<open>
  \<^verbatim>\<open>np.ones((window,))\<close> raises \<^verbatim>\<open>ValueError\<close> for a negative dimension and is the
  empty array for 0.
\<close>

definition np_ones :: "int \<Rightarrow> error + rat list" where
  "np_ones n = (if n < 0 then Inl ValueError else Inr (replicate (nat n) 1))"

text \<open>
  The inner product of NumPy's loop: the accumulator starts at 0, and each step adds one
  rounded product and rounds the sum. (A fused multiply-add or a vectorised sum can
  differ from this in the last bit when three or more terms are not zero.)
\<close>

fun dot :: "rat \<Rightarrow> (rat \<times> rat) list \<Rightarrow> rat option" where
  "dot acc [] = Some acc"
| "dot acc ((x, y) # ps) =
     (case fl64 (x * y) of
        None \<Rightarrow> None
      | Some p \<Rightarrow> (case fl64 (acc + p) of None \<Rightarrow> None | Some s \<Rightarrow> dot s ps))"

text \<open>
  The full discrete convolution of two arrays: element \<open>k\<close> is the sum of the products
  \<open>a[k - j] * v[j]\<close> over the indices inside both arrays, taken in ascending order of
  the index into \<open>a\<close>; it has \<open>len(a) + len(v) - 1\<close> elements.
\<close>

definition convolve_full :: "rat list \<Rightarrow> rat list \<Rightarrow> rat option list" where
  "convolve_full a v =
     map (\<lambda>k. dot 0 (map (\<lambda>j. (a ! (k - j), v ! j))
                  (filter (\<lambda>j. j \<le> k \<and> k - j < length a) (rev [0..<length v]))))
       [0..<length a + length v - 1]"

text \<open>
  \<^verbatim>\<open>np.convolve(a, v, mode="same")\<close> on two \<^verbatim>\<open>float64\<close> arrays. NumPy first swaps the
  arguments when \<open>v\<close> is the longer one, raises \<^verbatim>\<open>ValueError\<close> when either is empty,
  and then returns the middle of the full convolution: as many elements as the longer
  argument has, starting at offset \<open>(n - 1) div 2\<close> where \<open>n\<close> is the length of the
  shorter one.
\<close>

definition np_convolve_same :: "rat list \<Rightarrow> rat list \<Rightarrow> error + rat list" where
  "np_convolve_same a0 v0 =
     (let (a, v) = (if length v0 > length a0 then (v0, a0) else (a0, v0)) in
      if length a = 0 then Inl ValueError
      else if length v = 0 then Inl ValueError
      else map_result checked
             (take (length a) (drop ((length v - 1) div 2) (convolve_full a v))))"

text \<open>
  \<^verbatim>\<open>np.convolve(data_array, np.ones((window,))/window, mode="same")\<close>. The kernel is
  evaluated first: every one divided by the window, rounded; dividing the empty array by
  0 divides nothing. \<^verbatim>\<open>np.convolve\<close> then converts the data to \<^verbatim>\<open>float64\<close>, which
  rounds the numbers that are not \<^verbatim>\<open>float64\<close> values already.
\<close>

definition moving_average :: "rat list \<Rightarrow> int \<Rightarrow> error + rat list" where
  "moving_average data_array window =
     (case np_ones window of
        Inl e \<Rightarrow> Inl e
      | Inr ones \<Rightarrow>
          (case map_result (\<lambda>x. float64 (x / of_int window)) ones of
             Inl e \<Rightarrow> Inl e
           | Inr weights \<Rightarrow>
               (case map_result float64 data_array of
                  Inl e \<Rightarrow> Inl e
                | Inr a \<Rightarrow> np_convolve_same a weights)))"

subsection \<open>Data frames\<close>

text \<open>
  A pandas \<^verbatim>\<open>DataFrame\<close>, as far as the module uses one: an ordered list of named
  columns, each either a column of strings (\<^verbatim>\<open>date\<close>, \<^verbatim>\<open>status\<close>, \<^verbatim>\<open>day\<close>) or a
  column of integers (the indicator columns that \<^verbatim>\<open>binarise_df\<close> adds). Missing values
  and columns of mixed type are outside the embedding. \<open>cells\<close> lists the elements of a
  column as Python values, so that an integer never equals a string.
\<close>

datatype cell = Str string | Num int

datatype column = StrCol "string list" | IntCol "int list"

fun cells :: "column \<Rightarrow> cell list" where
  "cells (StrCol xs) = map Str xs"
| "cells (IntCol ns) = map Num ns"

fun col_len :: "column \<Rightarrow> nat" where
  "col_len (StrCol xs) = length xs"
| "col_len (IntCol ns) = length ns"

type_synonym dataframe = "(string \<times> column) list"

text \<open>
  \<^verbatim>\<open>dataframe[name]\<close> raises \<^verbatim>\<open>KeyError\<close> for a missing column.
  \<^verbatim>\<open>dataframe[name] = values\<close> replaces the column of that name where it is, or appends
  a new one after the others. On a frame that has rows it raises \<^verbatim>\<open>ValueError\<close> when
  the number of values is not the number of rows. A frame that has columns but no rows
  is extended to the length of the values, its columns filled with missing values;
  that is outside the embedding.
\<close>

definition nrows :: "dataframe \<Rightarrow> nat" where
  "nrows df = (case df of [] \<Rightarrow> 0 | (_, c) # _ \<Rightarrow> col_len c)"

definition getitem :: "dataframe \<Rightarrow> string \<Rightarrow> error + column" where
  "getitem df name = (case map_of df name of None \<Rightarrow> Inl KeyError | Some c \<Rightarrow> Inr c)"

definition setitem :: "dataframe \<Rightarrow> string \<Rightarrow> column \<Rightarrow> error + dataframe" where
  "setitem df name c =
     (if df = [] \<or> col_len c = nrows df then Inr (AList.update name c df)
      else if nrows df = 0 then Inl Unmodelled
      else Inl ValueError)"

text \<open>
  The functions of the module mutate the frame they are given and return it, so frames
  live in a store and are passed by reference. \<open>fresh\<close> is the next unused reference.
\<close>

type_synonym ref = nat

record store =
  frames :: "ref \<Rightarrow> dataframe"
  fresh :: ref

subsection \<open>\<^verbatim>\<open>binarise_df\<close> and \<^verbatim>\<open>add_day\<close>\<close>

text \<open>
  \<^verbatim>\<open>dataframe[value] = binarise(dataframe[column], value); return dataframe\<close>. The
  right-hand side is evaluated first. The target \<open>value\<close> is a string.
\<close>

definition binarise_df :: "store \<Rightarrow> ref \<Rightarrow> string \<Rightarrow> string \<Rightarrow> error + ref \<times> store" where
  "binarise_df st dataframe v column =
     (case getitem (frames st dataframe) column of
        Inl e \<Rightarrow> Inl e
      | Inr src \<Rightarrow>
          (case setitem (frames st dataframe) v (IntCol (binarise (cells src) (Str v))) of
             Inl e \<Rightarrow> Inl e
           | Inr df \<Rightarrow> Inr (dataframe, st\<lparr>frames := (frames st)(dataframe := df)\<rparr>)))"

text \<open>
  \<^verbatim>\<open>dataframe['day'] = dataframe['date'].str.slice(0, 10); return dataframe\<close>. The
  \<^verbatim>\<open>.str\<close> accessor raises \<^verbatim>\<open>AttributeError\<close> on a column of integers.
\<close>

fun str_slice :: "column \<Rightarrow> nat \<Rightarrow> nat \<Rightarrow> error + column" where
  "str_slice (StrCol xs) start stop = Inr (StrCol (map (\<lambda>s. take (stop - start) (drop start s)) xs))"
| "str_slice (IntCol ns) start stop = Inl AttributeError"

definition add_day :: "store \<Rightarrow> ref \<Rightarrow> error + ref \<times> store" where
  "add_day st dataframe =
     (case getitem (frames st dataframe) ''date'' of
        Inl e \<Rightarrow> Inl e
      | Inr dates \<Rightarrow>
          (case str_slice dates 0 10 of
             Inl e \<Rightarrow> Inl e
           | Inr days \<Rightarrow>
               (case setitem (frames st dataframe) ''day'' days of
                  Inl e \<Rightarrow> Inl e
                | Inr df \<Rightarrow> Inr (dataframe, st\<lparr>frames := (frames st)(dataframe := df)\<rparr>))))"

subsection \<open>\<^verbatim>\<open>sort_values\<close> and \<^verbatim>\<open>groupby(...).mean()\<close>\<close>

text \<open>
  \<^verbatim>\<open>data.sort_values(by=...)\<close> returns a new frame with the rows in ascending order of
  the key column; the frame it is called on is left as it is. Strings compare
  lexicographically by code point. The sort here is stable; pandas does not fix the
  order of rows with equal keys, and nothing below depends on it.
\<close>

fun argsort :: "column \<Rightarrow> nat list" where
  "argsort (StrCol xs) = sort_key (\<lambda>i. xs ! i) [0..<length xs]"
| "argsort (IntCol ns) = sort_key (\<lambda>i. ns ! i) [0..<length ns]"

fun reindex :: "nat list \<Rightarrow> column \<Rightarrow> column" where
  "reindex p (StrCol xs) = StrCol (map (\<lambda>i. xs ! i) p)"
| "reindex p (IntCol ns) = IntCol (map (\<lambda>i. ns ! i) p)"

definition sort_values :: "store \<Rightarrow> ref \<Rightarrow> string \<Rightarrow> error + ref \<times> store" where
  "sort_values st data by =
     (case getitem (frames st data) by of
        Inl e \<Rightarrow> Inl e
      | Inr key \<Rightarrow>
          Inr (fresh st,
               st\<lparr>frames := (frames st)
                     (fresh st := map (\<lambda>(name, c). (name, reindex (argsort key) c)) (frames st data)),
                  fresh := Suc (fresh st)\<rparr>))"

text \<open>
  \<^verbatim>\<open>.groupby(by, as_index=False)[col].mean()\<close>: one row per distinct key, in ascending
  order of the key, with the arithmetic mean of the column over the rows of that key.
  Only a string key with an integer column is in the embedding, which is what
  \<^verbatim>\<open>get_interactions\<close> groups unless the interaction type is itself \<^verbatim>\<open>"day"\<close>.
\<close>

definition mean :: "int list \<Rightarrow> rat" where
  "mean xs = of_int (sum_list xs) / of_nat (length xs)"

definition group_means :: "string list \<Rightarrow> int list \<Rightarrow> (string \<times> rat) list" where
  "group_means keys vals =
     map (\<lambda>k. (k, mean (map snd (filter (\<lambda>(k', v). k' = k) (zip keys vals)))))
       (sort (remdups keys))"

definition groupby_mean :: "dataframe \<Rightarrow> string \<Rightarrow> string \<Rightarrow> error + (string \<times> rat) list" where
  "groupby_mean df by col =
     (case getitem df by of
        Inl e \<Rightarrow> Inl e
      | Inr key \<Rightarrow>
          (case getitem df col of
             Inl e \<Rightarrow> Inl e
           | Inr vals \<Rightarrow>
               (case (key, vals) of
                  (StrCol ks, IntCol vs) \<Rightarrow> Inr (group_means ks vs)
                | _ \<Rightarrow> Inl Unmodelled)))"

subsection \<open>\<^verbatim>\<open>get_interactions\<close> and \<^verbatim>\<open>get_times\<close>\<close>

text \<open>
  The body of \<^verbatim>\<open>get_interactions\<close> is \<^verbatim>\<open>moving_average(rates, window)\<close>, where
  \<^verbatim>\<open>rates\<close> is the expression
  \<^verbatim>\<open>binarise_df(data, interaction_type, "status").groupby("day", as_index=False)[interaction_type].mean()[interaction_type]\<close>
  on the frame after \<^verbatim>\<open>add_day\<close> and \<^verbatim>\<open>sort_values\<close>. \<open>daily_rate\<close> is that
  expression with the two statements before it: the per-day means before smoothing.
  The frame of the caller keeps the \<^verbatim>\<open>day\<close> column that \<^verbatim>\<open>add_day\<close> gave it.
\<close>

definition daily_rate :: "store \<Rightarrow> ref \<Rightarrow> string \<Rightarrow> error + rat list \<times> store" where
  "daily_rate st data interaction_type =
     (case add_day st data of
        Inl e \<Rightarrow> Inl e
      | Inr (data1, st1) \<Rightarrow>
          (case sort_values st1 data1 ''day'' of
             Inl e \<Rightarrow> Inl e
           | Inr (data2, st2) \<Rightarrow>
               (case binarise_df st2 data2 interaction_type ''status'' of
                  Inl e \<Rightarrow> Inl e
                | Inr (data3, st3) \<Rightarrow>
                    (case groupby_mean (frames st3 data3) ''day'' interaction_type of
                       Inl e \<Rightarrow> Inl e
                     | Inr means \<Rightarrow> Inr (map snd means, st3)))))"

definition get_interactions :: "store \<Rightarrow> ref \<Rightarrow> string \<Rightarrow> int \<Rightarrow> error + rat list \<times> store" where
  "get_interactions st data interaction_type window =
     (case daily_rate st data interaction_type of
        Inl e \<Rightarrow> Inl e
      | Inr (rates, st') \<Rightarrow>
          (case moving_average rates window of
             Inl e \<Rightarrow> Inl e
           | Inr smoothed \<Rightarrow> Inr (smoothed, st')))"

text \<open>
  \<^verbatim>\<open>sorted(dates.date2num([date_to_datetime(d) for d in set(data['day'])]))\<close>. The list
  comprehension stops at the first date that does not parse. \<^verbatim>\<open>date2num\<close> is
  matplotlib's and is a parameter here. The order in which Python iterates over a set is
  not fixed; the result is sorted, and every failure is the same exception.
\<close>

definition get_times :: "(datetime \<Rightarrow> rat) \<Rightarrow> store \<Rightarrow> ref \<Rightarrow> error + rat list \<times> store" where
  "get_times date2num st data =
     (case add_day st data of
        Inl e \<Rightarrow> Inl e
      | Inr (data1, st1) \<Rightarrow>
          (case sort_values st1 data1 ''day'' of
             Inl e \<Rightarrow> Inl e
           | Inr (data2, st2) \<Rightarrow>
               (case getitem (frames st2 data2) ''day'' of
                  Inl e \<Rightarrow> Inl e
                | Inr (IntCol ns) \<Rightarrow> Inl Unmodelled
                | Inr (StrCol days) \<Rightarrow>
                    (case map_result date_to_datetime (remdups days) of
                       Inl e \<Rightarrow> Inl e
                     | Inr dts \<Rightarrow> Inr (sort (map date2num dts), st2)))))"

subsection \<open>Vocabulary of the specification\<close>

text \<open>
  ``A string of the form \<^verbatim>\<open>YYYY-MM-DD\<close>'': in a template the letters \<open>Y M D H S m\<close>
  stand for one decimal digit each, and every other character for itself.
  \<open>digits_at s i n\<close> is the number written by the \<open>n\<close> characters of \<open>s\<close> from
  position \<open>i\<close>.
\<close>

definition fits :: "char \<Rightarrow> char \<Rightarrow> bool" where
  "fits t c \<longleftrightarrow> (if t \<in> set ''YMDHSm'' then is_digit c else c = t)"

definition has_form :: "string \<Rightarrow> string \<Rightarrow> bool" where
  "has_form template s \<longleftrightarrow> list_all2 fits template s"

definition digits_at :: "string \<Rightarrow> nat \<Rightarrow> nat \<Rightarrow> nat" where
  "digits_at s i n = py_int (take n (drop i s))"

text \<open>A number that is a finite \<^verbatim>\<open>float64\<close> value: rounding leaves it as it is.\<close>

definition is_float64 :: "rat \<Rightarrow> bool" where
  "is_float64 x \<longleftrightarrow> fl64 x = Some x"

text \<open>
  A valid calendar date is one that \<^verbatim>\<open>datetime\<close> can hold (years 1 to 9999), and a
  valid time of day has hours up to 23 and minutes and seconds up to 59.
\<close>

definition valid_date :: "nat \<Rightarrow> nat \<Rightarrow> nat \<Rightarrow> bool" where
  "valid_date y m d \<longleftrightarrow> 1 \<le> y \<and> y \<le> 9999 \<and> 1 \<le> m \<and> m \<le> 12 \<and> 1 \<le> d \<and> d \<le> days_in_month y m"

definition valid_time :: "nat \<Rightarrow> nat \<Rightarrow> nat \<Rightarrow> bool" where
  "valid_time H M S \<longleftrightarrow> H \<le> 23 \<and> M \<le> 59 \<and> S \<le> 59"

text \<open>Numbers written with leading zeros, and the two forms built from them.\<close>

definition digit_char :: "nat \<Rightarrow> char" where
  "digit_char k = char_of (48 + k)"

definition zfill2 :: "nat \<Rightarrow> string" where
  "zfill2 n = [digit_char (n div 10), digit_char (n mod 10)]"

definition zfill4 :: "nat \<Rightarrow> string" where
  "zfill4 n = [digit_char (n div 1000), digit_char (n div 100 mod 10),
     digit_char (n div 10 mod 10), digit_char (n mod 10)]"

definition iso_date :: "nat \<Rightarrow> nat \<Rightarrow> nat \<Rightarrow> string" where
  "iso_date y m d = zfill4 y @ ''-'' @ zfill2 m @ ''-'' @ zfill2 d"

definition iso_time :: "nat \<Rightarrow> nat \<Rightarrow> nat \<Rightarrow> string" where
  "iso_time H M S = zfill2 H @ '':'' @ zfill2 M @ '':'' @ zfill2 S"


text \<open>
  A well-formed frame has distinct column names and columns of one length. The table of
  the end-to-end scenario: four rows of 1 January 2021 with the statuses Opened, Opened,
  Error, Clicked, at reference 0 of a store. \<open>clash_store\<close> holds a frame whose
  \<^verbatim>\<open>status\<close> column is named like one of its own values. \<open>indicator src v\<close> is
  the 0/1 column that marks the elements of the column \<open>src\<close> equal to \<open>v\<close>.
  \<open>value_of\<close> and
  \<open>frame_of\<close> read a result: the value returned, and the frame behind the returned
  reference.
\<close>

definition scenario_table :: dataframe where
  "scenario_table =
     [(''date'', StrCol [''2021-01-01 08:00:00.000'', ''2021-01-01 09:30:00.000'',
         ''2021-01-01 17:45:10.250'', ''2021-01-01 23:59:59.999'']),
      (''status'', StrCol [''Opened'', ''Opened'', ''Error'', ''Clicked''])]"

definition scenario_store :: store where
  "scenario_store = \<lparr>frames = (\<lambda>_. [])(0 := scenario_table), fresh = 1\<rparr>"

definition clash_store :: store where
  "clash_store = \<lparr>frames = (\<lambda>_. [])(0 := [(''status'', StrCol [''status'', ''Opened''])]), fresh = 1\<rparr>"

definition indicator :: "column \<Rightarrow> string \<Rightarrow> column" where
  "indicator src v = IntCol (binarise (cells src) (Str v))"

definition frame_of :: "error + ref \<times> store \<Rightarrow> error + dataframe" where
  "frame_of res = map_sum id (\<lambda>(r, st). frames st r) res"

definition value_of :: "error + 'a \<times> store \<Rightarrow> error + 'a" where
  "value_of res = map_sum id fst res"

definition well_formed :: "dataframe \<Rightarrow> bool" where
  "well_formed df \<longleftrightarrow> distinct (map fst df) \<and> (\<forall>c \<in> set (map snd df). col_len c = nrows df)"

text \<open>Auxiliary notions of the proofs: the first match, and a class of digits and blanks.\<close>

definition first_match :: "tok list \<Rightarrow> string \<Rightarrow> ((char \<times> string) list \<times> string) option" where
  "first_match ts s = (case re_match ts s of [] \<Rightarrow> None | x # _ \<Rightarrow> Some x)"

definition plain :: "cclass \<Rightarrow> bool" where
  "plain p \<longleftrightarrow> (\<forall>c. p c \<longrightarrow> is_digit c \<or> is_space c)"

section \<open>Properties\<close>

subsection \<open>DateParser\<close>

text \<open>Decimal digits as characters.\<close>

lemma of_char_digit_char: "k < 10 \<Longrightarrow> of_char (digit_char k) = 48 + k"
  by (simp add: digit_char_def)

lemma chr_range_digit_char:
  "k < 10 \<Longrightarrow> chr_range lo hi (digit_char k) \<longleftrightarrow> of_char lo \<le> 48 + k \<and> 48 + k \<le> (of_char hi :: nat)"
  by (simp add: chr_range_def less_eq_char_def of_char_digit_char)

lemma eq_digit_char: "k < 10 \<Longrightarrow> c = digit_char k \<longleftrightarrow> (of_char c :: nat) = 48 + k"
  by (metis of_char_digit_char of_char_eq_iff)

lemma is_digit_digit_char: "k < 10 \<Longrightarrow> is_digit (digit_char k)"
  by (simp add: is_digit_def chr_range_digit_char)

text \<open>
  The first alternative that matches a field written with leading zeros takes the whole
  field.
\<close>

lemma match_Y: "y \<le> 9999 \<Longrightarrow> match_alts (directive CHR ''Y'') (zfill4 y @ r) = [(zfill4 y, r)]"
  by (simp add: match_alts_def directive_def zfill4_def is_digit_digit_char List.map_filter_simps)

lemmas match_simps = match_alts_def directive_def zfill2_def chr_range_digit_char
  eq_digit_char is_digit_digit_char

lemma match_m:
  assumes "1 \<le> m" "m \<le> 12"
  shows "\<exists>rest. match_alts (directive CHR ''m'') (zfill2 m @ r) = (zfill2 m, r) # rest"
proof -
  have "m div 10 = 1 \<and> m mod 10 \<le> 2 \<or> m div 10 = 0 \<and> 1 \<le> m mod 10"
    using assms by presburger
  then show ?thesis
    by (auto simp add: match_simps)
qed

lemma match_d:
  assumes "1 \<le> d" "d \<le> 31"
  shows "\<exists>rest. match_alts (directive CHR ''d'') (zfill2 d @ r) = (zfill2 d, r) # rest"
proof -
  have "d div 10 = 3 \<and> d mod 10 \<le> 1 \<or> d div 10 = 2 \<or> d div 10 = 1
        \<or> d div 10 = 0 \<and> 1 \<le> d mod 10"
    using assms by presburger
  then show ?thesis
    by (auto simp add: match_simps)
qed

lemma match_H:
  assumes "H \<le> 23"
  shows "\<exists>rest. match_alts (directive CHR ''H'') (zfill2 H @ r) = (zfill2 H, r) # rest"
proof -
  have "H div 10 = 2 \<and> H mod 10 \<le> 3 \<or> H div 10 = 1 \<or> H div 10 = 0"
    using assms by presburger
  then show ?thesis
    by (auto simp add: match_simps)
qed

lemma match_M:
  assumes "M \<le> 59"
  shows "\<exists>rest. match_alts (directive CHR ''M'') (zfill2 M @ r) = (zfill2 M, r) # rest"
proof -
  have "M div 10 \<le> 5"
    using assms by presburger
  then show ?thesis
    by (auto simp add: match_simps)
qed

lemma match_S:
  assumes "S \<le> 59"
  shows "\<exists>rest. match_alts (directive CHR ''S'') (zfill2 S @ r) = (zfill2 S, r) # rest"
proof -
  have "S div 10 \<le> 5"
    using assms by presburger
  then show ?thesis
    by (auto simp add: match_simps)
qed

lemma first_match_Nil: "first_match [] s = Some ([], s)"
  by (simp add: first_match_def)

lemma first_match_Lit: "first_match (Lit c # ts) (c # s) = first_match ts s"
  by (simp add: first_match_def)

lemma first_match_Dir:
  assumes "\<exists>rest. match_alts (directive c) s = (m, r) # rest"
    and "first_match ts r = Some (gs, r')"
  shows "first_match (Dir c # ts) s = Some ((c, m) # gs, r')"
  using assms by (auto simp: first_match_def split: list.splits)

lemma py_int_zfill2: "n < 100 \<Longrightarrow> py_int (zfill2 n) = n"
  by (simp add: py_int_def zfill2_def is_digit_digit_char of_char_digit_char)
lemma decimal4:
  fixes n :: nat
  shows "10 * (10 * (10 * (n div 1000) + n div 100 mod 10) + n div 10 mod 10) + n mod 10 = n"
proof -
  have a: "n div 100 = n div 10 div 10" and b: "n div 1000 = n div 10 div 10 div 10"
    by (simp_all add: div_mult2_eq)
  show ?thesis
    unfolding a b by (simp add: mult_div_mod_eq)
qed

lemma py_int_zfill4: "n < 10000 \<Longrightarrow> py_int (zfill4 n) = n"
  using decimal4 [of n]
  by (simp add: py_int_def zfill4_def is_digit_digit_char of_char_digit_char)

text \<open>
  Directives match digits and blanks only, and \<^verbatim>\<open>\s+\<close> whitespace only. So a
  character that is neither occurs in a matched string exactly as often as it occurs as
  a literal of the format.
\<close>

lemma match_seq_split:
  "match_seq alt s = Some (m, r) \<Longrightarrow> s = m @ r \<and> list_all2 (\<lambda>p c. p c) alt m"
proof (induction alt s arbitrary: m r rule: match_seq.induct)
  case (1 s)
  then show ?case by simp
next
  case (2 p ps)
  then show ?case by simp
next
  case (3 p ps c s)
  then show ?case by (auto split: if_splits)
qed

lemma plain_chr_range: "CHR ''0'' \<le> lo \<Longrightarrow> hi \<le> CHR ''9'' \<Longrightarrow> plain (chr_range lo hi)"
  by (auto simp: plain_def chr_range_def is_digit_def)

lemma plain_is_digit: "plain is_digit"
  by (simp add: plain_def)

lemma plain_eq: "is_digit x \<or> is_space x \<Longrightarrow> plain ((=) x)"
  by (auto simp: plain_def)

lemma is_digit_literal:
  "is_digit CHR ''0''" "is_digit CHR ''1''" "is_digit CHR ''2''" "is_digit CHR ''3''" "is_digit CHR ''6''"
  by (simp_all add: is_digit_def chr_range_def)

lemma is_space_space: "is_space CHR '' ''"
  by (simp add: is_space_def)

lemma directive_plain: "alt \<in> set (directive d) \<Longrightarrow> list_all plain alt"
  by (simp add: directive_def plain_chr_range plain_is_digit plain_eq is_digit_literal is_space_space split: if_splits, safe, simp_all add: plain_chr_range plain_is_digit plain_eq is_digit_literal is_space_space)

lemma match_seq_count:
  assumes "match_seq alt s = Some (m, r)" "list_all plain alt" "\<not> is_digit c" "\<not> is_space c"
  shows "s = m @ r \<and> count_list m c = 0"
proof -
  from match_seq_split [OF assms(1)] have s: "s = m @ r" and m: "list_all2 (\<lambda>p c. p c) alt m"
    by simp_all
  have "c \<notin> set m"
  proof
    assume "c \<in> set m"
    then obtain i where i: "i < length m" "m ! i = c"
      by (auto simp: in_set_conv_nth)
    with m have "(alt ! i) c" "i < length alt"
      by (auto simp: list_all2_conv_all_nth)
    with assms(2) have "plain (alt ! i)"
      by (simp add: list_all_length)
    with \<open>(alt ! i) c\<close> assms(3,4) show False
      by (auto simp: plain_def)
  qed
  with s show ?thesis by simp
qed

lemma match_alts_count:
  assumes "(m, r) \<in> set (match_alts (directive d) s)" "\<not> is_digit c" "\<not> is_space c"
  shows "s = m @ r \<and> count_list m c = 0"
proof -
  from assms(1) obtain alt where "alt \<in> set (directive d)" "match_seq alt s = Some (m, r)"
    by (auto simp: match_alts_def List.map_filter_def)
  then show ?thesis
    using match_seq_count directive_plain assms(2,3) by blast
qed

lemma spaces_count:
  "r \<in> set (spaces s) \<Longrightarrow> \<not> is_space c \<Longrightarrow> \<exists>p. s = p @ r \<and> count_list p c = 0"
proof (induction s)
  case Nil
  then show ?case by simp
next
  case (Cons x s)
  from Cons.prems(1) have x: "is_space x" and disj: "r \<in> set (spaces s) \<or> r = s"
    by (auto split: if_splits)
  from disj show ?case
  proof
    assume "r \<in> set (spaces s)"
    with Cons obtain p where "s = p @ r" "count_list p c = 0" by blast
    with x Cons.prems(2) have "x # s = (x # p) @ r \<and> count_list (x # p) c = 0" by auto
    then show ?thesis by blast
  next
    assume "r = s"
    with x Cons.prems(2) have "x # s = [x] @ r \<and> count_list [x] c = 0" by auto
    then show ?thesis by blast
  qed
qed

lemma re_match_count:
  assumes "(gs, r) \<in> set (re_match ts s)" "\<not> is_digit c" "\<not> is_space c"
  shows "\<exists>p. s = p @ r \<and> count_list p c = count_list ts (Lit c)"
  using assms(1)
proof (induction ts s arbitrary: gs rule: re_match.induct)
  case (1 s)
  then show ?case by simp
next
  case (2 d ts s)
  from "2.prems" obtain m r1 gs' where m: "(m, r1) \<in> set (match_alts (directive d) s)"
    and rest: "(gs', r) \<in> set (re_match ts r1)"
    by auto
  from "2.IH" [OF m refl rest] obtain p where p: "r1 = p @ r" "count_list p c = count_list ts (Lit c)"
    by blast
  from match_alts_count [OF m assms(2,3)] have "s = m @ r1" "count_list m c = 0"
    by simp_all
  with p have "s = (m @ p) @ r \<and> count_list (m @ p) c = count_list (Dir d # ts) (Lit c)"
    by simp
  then show ?case by blast
next
  case (3 ts s)
  from "3.prems" obtain r1 where r1: "r1 \<in> set (spaces s)" and rest: "(gs, r) \<in> set (re_match ts r1)"
    by auto
  from "3.IH" [OF r1 rest] obtain p where p: "r1 = p @ r" "count_list p c = count_list ts (Lit c)"
    by blast
  from spaces_count [OF r1 assms(3)] obtain q where "s = q @ r1" "count_list q c = 0"
    by blast
  with p have "s = (q @ p) @ r \<and> count_list (q @ p) c = count_list (Ws # ts) (Lit c)"
    by simp
  then show ?case by blast
next
  case (4 x ts s)
  from "4.prems" obtain r1 where s: "s = x # r1" and rest: "(gs, r) \<in> set (re_match ts r1)"
    by (auto split: list.splits if_splits)
  from "4.IH" [OF s _ rest] obtain p where p: "r1 = p @ r" "count_list p c = count_list ts (Lit c)"
    by blast
  with s have "s = (x # p) @ r \<and> count_list (x # p) c = count_list (Lit x # ts) (Lit c)"
    by auto
  then show ?case by blast
qed

text \<open>The two formats of \<open>date_to_datetime\<close>, compiled.\<close>

lemma pattern_date: "pattern ''%Y-%m-%d'' =
    [Dir CHR ''Y'', Lit CHR ''-'', Dir CHR ''m'', Lit CHR ''-'', Dir CHR ''d'']"
  by (simp add: is_space_def)

lemma pattern_datetime: "pattern ''%Y-%m-%d %H:%M:%S'' =
    [Dir CHR ''Y'', Lit CHR ''-'', Dir CHR ''m'', Lit CHR ''-'', Dir CHR ''d'', Ws,
     Dir CHR ''H'', Lit CHR '':'', Dir CHR ''M'', Lit CHR '':'', Dir CHR ''S'']"
  by (simp add: is_space_def)

lemma modelled_formats:
  "modelled (pattern ''%Y-%m-%d'')" "modelled (pattern ''%Y-%m-%d %H:%M:%S'')"
  unfolding pattern_date pattern_datetime by (simp_all add: modelled_def)

lemma strptime_Inl:
  "modelled (pattern fmt) \<Longrightarrow> strptime s fmt = Inl e \<Longrightarrow> e = ValueError"
  by (auto simp: strptime_def new_datetime_def split: list.splits if_splits)

lemma strptime_Inr_count:
  assumes "strptime s fmt = Inr dt" "\<not> is_digit c" "\<not> is_space c"
  shows "count_list s c = count_list (pattern fmt) (Lit c)"
proof -
  from assms(1) obtain gs rest where "re_match (pattern fmt) s = (gs, []) # rest"
    by (auto simp: strptime_def split: list.splits if_splits)
  then have "(gs, []) \<in> set (re_match (pattern fmt) s)"
    by simp
  from re_match_count [OF this assms(2,3)] show ?thesis
    by simp
qed

lemma strptime_first_match:
  assumes "modelled (pattern fmt)" "first_match (pattern fmt) s = Some (gs, [])"
  shows "strptime s fmt =
    new_datetime (found gs CHR ''Y'' 1900) (found gs CHR ''m'' 1) (found gs CHR ''d'' 1)
      (found gs CHR ''H'' 0) (found gs CHR ''M'' 0) (found gs CHR ''S'' 0)"
  using assms by (auto simp: strptime_def first_match_def split: list.splits)

text \<open>Valid dates and times, written in the two forms, are parsed as they read.\<close>

lemma days_in_month_le: "days_in_month y m \<le> 31" if "1 \<le> m" "m \<le> 12"
proof -
  from that have "m \<in> {1, 2, 3, 4, 5, 6, 7, 8, 9, 10, 11, 12}"
    by (simp only: insert_iff empty_iff) presburger
  then show ?thesis
    by (auto simp: days_in_month_def)
qed

lemma strptime_date:
  assumes "valid_date y m d"
  shows "strptime (iso_date y m d) ''%Y-%m-%d'' =
    Inr \<lparr>year = y, month = m, day = d, hour = 0, minute = 0, second = 0\<rparr>"
proof -
  from assms have y: "1 \<le> y" "y \<le> 9999" and m: "1 \<le> m" "m \<le> 12"
    and d: "1 \<le> d" "d \<le> days_in_month y m"
    by (simp_all add: valid_date_def)
  from d(2) days_in_month_le [OF m] have d31: "d \<le> 31"
    by (rule order_trans)
  let ?gs = "[(CHR ''Y'', zfill4 y), (CHR ''m'', zfill2 m), (CHR ''d'', zfill2 d)]"
  have "first_match [Dir CHR ''d''] (zfill2 d @ []) = Some ([(CHR ''d'', zfill2 d)], [])"
    by (rule first_match_Dir [OF match_d [OF d(1) d31] first_match_Nil])
  then have "first_match [Lit CHR ''-'', Dir CHR ''d''] (CHR ''-'' # zfill2 d @ [])
      = Some ([(CHR ''d'', zfill2 d)], [])"
    by (simp only: first_match_Lit)
  from first_match_Dir [OF match_m [OF m] this]
  have "first_match [Lit CHR ''-'', Dir CHR ''m'', Lit CHR ''-'', Dir CHR ''d'']
      (CHR ''-'' # zfill2 m @ CHR ''-'' # zfill2 d @ [])
      = Some ([(CHR ''m'', zfill2 m), (CHR ''d'', zfill2 d)], [])"
    by (simp only: first_match_Lit)
  then have "first_match [Dir CHR ''Y'', Lit CHR ''-'', Dir CHR ''m'', Lit CHR ''-'', Dir CHR ''d'']
      (zfill4 y @ CHR ''-'' # zfill2 m @ CHR ''-'' # zfill2 d @ []) = Some (?gs, [])"
    by (rule first_match_Dir [rotated]) (simp add: match_Y [OF y(2)])
  then have "first_match (pattern ''%Y-%m-%d'') (iso_date y m d) = Some (?gs, [])"
    unfolding pattern_date iso_date_def by simp
  from strptime_first_match [OF modelled_formats(1) this] y m d d31 show ?thesis
    by (simp add: found_def py_int_zfill2 py_int_zfill4 new_datetime_def)
qed

declare pattern.simps [simp del]

lemma is_digit_not_space: "is_digit c \<Longrightarrow> \<not> is_space c"
  by (auto simp: is_digit_def chr_range_def is_space_def)

lemma digits_zfill2: "n \<le> 99 \<Longrightarrow> list_all is_digit (zfill2 n)"
  by (simp add: zfill2_def is_digit_digit_char)

lemma digits_zfill4: "n \<le> 9999 \<Longrightarrow> list_all is_digit (zfill4 n)"
  by (simp add: zfill4_def is_digit_digit_char)

lemma count_list_digits: "list_all is_digit s \<Longrightarrow> \<not> is_digit c \<Longrightarrow> count_list s c = 0"
  by (induction s) auto

lemma not_digit_literal: "\<not> is_digit CHR '':''" "\<not> is_digit CHR ''-''" "\<not> is_digit CHR '' ''" "\<not> is_digit CHR ''.''"
  by (simp_all add: is_digit_def chr_range_def)

lemma not_space_literal: "\<not> is_space CHR '':''" "\<not> is_space CHR ''-''"
  by (simp_all add: is_space_def)

lemma length_zfill [simp]: "length (zfill2 n) = 2" "length (zfill4 n) = 4"
  by (simp_all add: zfill2_def zfill4_def)

lemma length_iso [simp]: "length (iso_date y m d) = 10" "length (iso_time H M S) = 8"
  by (simp_all add: iso_date_def iso_time_def)

lemma count_colon_iso_date:
  "y \<le> 9999 \<Longrightarrow> m \<le> 99 \<Longrightarrow> d \<le> 99 \<Longrightarrow> count_list (iso_date y m d) CHR '':'' = 0"
  by (simp add: iso_date_def count_list_digits digits_zfill2 digits_zfill4 not_digit_literal)

lemma first_attempt_fails:
  assumes "count_list (take (length s - 4) s) CHR '':'' \<noteq> 2"
  shows "strptime (take (length s - 4) s) ''%Y-%m-%d %H:%M:%S'' = Inl ValueError"
proof (cases "strptime (take (length s - 4) s) ''%Y-%m-%d %H:%M:%S''")
  case (Inl e)
  with strptime_Inl [OF modelled_formats(2)] show ?thesis by blast
next
  case (Inr dt)
  from strptime_Inr_count [OF Inr not_digit_literal(1) not_space_literal(1)] assms
  show ?thesis by (simp add: pattern_datetime)
qed

lemma fallback_fails:
  assumes "count_list s CHR '':'' \<noteq> 0"
  shows "strptime s ''%Y-%m-%d'' = Inl ValueError"
proof (cases "strptime s ''%Y-%m-%d''")
  case (Inl e)
  with strptime_Inl [OF modelled_formats(1)] show ?thesis by blast
next
  case (Inr dt)
  from strptime_Inr_count [OF Inr not_digit_literal(1) not_space_literal(1)] assms
  show ?thesis by (simp add: pattern_date)
qed

lemma date_to_datetime_date:
  assumes "valid_date y m d"
  shows "date_to_datetime (iso_date y m d) =
    Inr \<lparr>year = y, month = m, day = d, hour = 0, minute = 0, second = 0\<rparr>"
proof -
  from assms have "y \<le> 9999" "m \<le> 99" "d \<le> 99"
    using days_in_month_le [of m y] by (auto simp: valid_date_def)
  then have "count_list (iso_date y m d) CHR '':'' = 0"
    by (rule count_colon_iso_date)
  then have "count_list (take (length (iso_date y m d) - 4) (iso_date y m d)) CHR '':'' = 0"
    by (metis append_take_drop_id count_list_append add_is_0)
  then have "strptime (take (length (iso_date y m d) - 4) (iso_date y m d)) ''%Y-%m-%d %H:%M:%S''
      = Inl ValueError"
    by (intro first_attempt_fails) simp
  with strptime_date [OF assms] show ?thesis
    by (simp add: date_to_datetime_def)
qed

lemma first_match_Ws_space:
  assumes "s \<noteq> []" "\<not> is_space (hd s)"
  shows "first_match (Ws # ts) (CHR '' '' # s) = first_match ts s"
  using assms by (cases s) (simp_all add: first_match_def is_space_def)

lemma strptime_datetime:
  assumes "valid_date y m d" "valid_time H M S"
  shows "strptime (iso_date y m d @ '' '' @ iso_time H M S) ''%Y-%m-%d %H:%M:%S'' =
    Inr \<lparr>year = y, month = m, day = d, hour = H, minute = M, second = S\<rparr>"
proof -
  from assms have y: "1 \<le> y" "y \<le> 9999" and m: "1 \<le> m" "m \<le> 12"
    and d: "1 \<le> d" "d \<le> days_in_month y m"
    and H: "H \<le> 23" and M: "M \<le> 59" and S: "S \<le> 59"
    by (simp_all add: valid_date_def valid_time_def)
  from d(2) days_in_month_le [OF m] have d31: "d \<le> 31"
    by (rule order_trans)
  let ?Y = "(CHR ''Y'', zfill4 y)" and ?m = "(CHR ''m'', zfill2 m)" and ?d = "(CHR ''d'', zfill2 d)"
  let ?H = "(CHR ''H'', zfill2 H)" and ?M = "(CHR ''M'', zfill2 M)" and ?S = "(CHR ''S'', zfill2 S)"
  let ?tS = "zfill2 S @ []"
  let ?tM = "zfill2 M @ CHR '':'' # ?tS"
  let ?tH = "zfill2 H @ CHR '':'' # ?tM"
  let ?td = "zfill2 d @ CHR '' '' # ?tH"
  let ?tm = "zfill2 m @ CHR ''-'' # ?td"
  let ?tY = "zfill4 y @ CHR ''-'' # ?tm"
  have "first_match [Dir CHR ''S''] ?tS = Some ([?S], [])"
    by (rule first_match_Dir [OF match_S [OF S] first_match_Nil])
  then have "first_match [Lit CHR '':'', Dir CHR ''S''] (CHR '':'' # ?tS) = Some ([?S], [])"
    by (simp only: first_match_Lit)
  from first_match_Dir [OF match_M [OF M] this]
  have "first_match [Lit CHR '':'', Dir CHR ''M'', Lit CHR '':'', Dir CHR ''S''] (CHR '':'' # ?tM)
      = Some ([?M, ?S], [])"
    by (simp only: first_match_Lit)
  from first_match_Dir [OF match_H [OF H] this]
  have "first_match [Dir CHR ''H'', Lit CHR '':'', Dir CHR ''M'', Lit CHR '':'', Dir CHR ''S''] ?tH
      = Some ([?H, ?M, ?S], [])" .
  moreover have "first_match (Ws # ts) (CHR '' '' # ?tH) = first_match ts ?tH" for ts
    using H by (intro first_match_Ws_space)
      (simp_all add: zfill2_def is_digit_not_space is_digit_digit_char)
  ultimately have "first_match [Ws, Dir CHR ''H'', Lit CHR '':'', Dir CHR ''M'', Lit CHR '':'',
      Dir CHR ''S''] (CHR '' '' # ?tH) = Some ([?H, ?M, ?S], [])"
    by (simp only:)
  from first_match_Dir [OF match_d [OF d(1) d31] this]
  have "first_match [Lit CHR ''-'', Dir CHR ''d'', Ws, Dir CHR ''H'', Lit CHR '':'', Dir CHR ''M'',
      Lit CHR '':'', Dir CHR ''S''] (CHR ''-'' # ?td) = Some ([?d, ?H, ?M, ?S], [])"
    by (simp only: first_match_Lit)
  from first_match_Dir [OF match_m [OF m] this]
  have "first_match [Lit CHR ''-'', Dir CHR ''m'', Lit CHR ''-'', Dir CHR ''d'', Ws, Dir CHR ''H'',
      Lit CHR '':'', Dir CHR ''M'', Lit CHR '':'', Dir CHR ''S''] (CHR ''-'' # ?tm)
      = Some ([?m, ?d, ?H, ?M, ?S], [])"
    by (simp only: first_match_Lit)
  then have "first_match [Dir CHR ''Y'', Lit CHR ''-'', Dir CHR ''m'', Lit CHR ''-'', Dir CHR ''d'',
      Ws, Dir CHR ''H'', Lit CHR '':'', Dir CHR ''M'', Lit CHR '':'', Dir CHR ''S''] ?tY
      = Some ([?Y, ?m, ?d, ?H, ?M, ?S], [])"
    by (rule first_match_Dir [rotated]) (simp add: match_Y [OF y(2)])
  then have "first_match (pattern ''%Y-%m-%d %H:%M:%S'') (iso_date y m d @ '' '' @ iso_time H M S)
      = Some ([?Y, ?m, ?d, ?H, ?M, ?S], [])"
    unfolding pattern_datetime iso_date_def iso_time_def by simp
  from strptime_first_match [OF modelled_formats(2) this] y m d d31 H M S show ?thesis
    by (simp add: found_def py_int_zfill2 py_int_zfill4 new_datetime_def)
qed

lemma date_to_datetime_drops_suffix:
  assumes "valid_date y m d" "valid_time H M S" "length suffix = 4"
  shows "date_to_datetime (iso_date y m d @ '' '' @ iso_time H M S @ suffix) =
    Inr \<lparr>year = y, month = m, day = d, hour = H, minute = M, second = S\<rparr>"
  using strptime_datetime [OF assms(1,2)] assms(3)
  by (simp add: date_to_datetime_def)




text \<open>
  A string of one of the forms is its fields written with leading zeros, so the results
  above hold for every string of the form.
\<close>

lemma is_digit_ex: "is_digit c \<Longrightarrow> \<exists>k<10. c = digit_char k"
proof -
  assume "is_digit c"
  then have "48 \<le> (of_char c :: nat)" "(of_char c :: nat) \<le> 57"
    by (simp_all add: is_digit_def chr_range_def less_eq_char_def)
  then have "of_char c - 48 < (10::nat)" "(of_char c :: nat) = 48 + (of_char c - 48)"
    by simp_all
  then show ?thesis
    using eq_digit_char by blast
qed

lemma decimal_step:
  fixes x d :: nat
  assumes "d < 10"
  shows "(10 * x + d) div 10 = x" "(10 * x + d) mod 10 = d"
  using assms by simp_all

lemma py_int_digits2:
  "a < 10 \<Longrightarrow> b < 10 \<Longrightarrow> py_int [digit_char a, digit_char b] = 10 * a + b"
  by (simp add: py_int_def is_digit_digit_char of_char_digit_char)

lemma py_int_digits4:
  "a < 10 \<Longrightarrow> b < 10 \<Longrightarrow> c < 10 \<Longrightarrow> d < 10 \<Longrightarrow>
   py_int [digit_char a, digit_char b, digit_char c, digit_char d]
     = 10 * (10 * (10 * a + b) + c) + d"
  by (simp add: py_int_def is_digit_digit_char of_char_digit_char)

lemma zfill2_decimal:
  assumes "b < 10"
  shows "zfill2 (10 * a + b) = [digit_char a, digit_char b]"
  unfolding zfill2_def by (simp only: decimal_step [OF assms])

lemma zfill4_decimal:
  assumes "b < 10" "c < 10" "d < 10"
  shows "zfill4 (10 * (10 * (10 * a + b) + c) + d)
    = [digit_char a, digit_char b, digit_char c, digit_char d]"
proof -
  have split: "n div 100 = n div 10 div 10" "n div 1000 = n div 10 div 10 div 10" for n :: nat
    by (simp_all add: div_mult2_eq)
  show ?thesis
    unfolding zfill4_def split
    by (simp only: decimal_step [OF assms(1)] decimal_step [OF assms(2)] decimal_step [OF assms(3)])
qed

lemma has_form_date_iso:
  assumes "has_form ''YYYY-MM-DD'' s"
  shows "s = iso_date (py_int (take 4 s)) (py_int (take 2 (drop 5 s))) (py_int (take 2 (drop 8 s)))"
proof -
  from assms obtain a b c d e f g h where s: "s = [a, b, c, d, CHR ''-'', e, f, CHR ''-'', g, h]"
    and dig: "is_digit a" "is_digit b" "is_digit c" "is_digit d" "is_digit e" "is_digit f"
      "is_digit g" "is_digit h"
    by (auto simp: has_form_def fits_def list_all2_Cons1)
  from is_digit_ex [OF dig(1)] obtain ka where ka: "ka < 10" "a = digit_char ka" by blast
  from is_digit_ex [OF dig(2)] obtain kb where kb: "kb < 10" "b = digit_char kb" by blast
  from is_digit_ex [OF dig(3)] obtain kc where kc: "kc < 10" "c = digit_char kc" by blast
  from is_digit_ex [OF dig(4)] obtain kd where kd: "kd < 10" "d = digit_char kd" by blast
  from is_digit_ex [OF dig(5)] obtain ke where ke: "ke < 10" "e = digit_char ke" by blast
  from is_digit_ex [OF dig(6)] obtain kf where kf: "kf < 10" "f = digit_char kf" by blast
  from is_digit_ex [OF dig(7)] obtain kg where kg: "kg < 10" "g = digit_char kg" by blast
  from is_digit_ex [OF dig(8)] obtain kh where kh: "kh < 10" "h = digit_char kh" by blast
  have "take 4 s = [a, b, c, d]" "take 2 (drop 5 s) = [e, f]" "take 2 (drop 8 s) = [g, h]"
    by (simp_all add: s)
  then have "iso_date (py_int (take 4 s)) (py_int (take 2 (drop 5 s))) (py_int (take 2 (drop 8 s)))
    = zfill4 (10 * (10 * (10 * ka + kb) + kc) + kd) @ ''-'' @ zfill2 (10 * ke + kf) @ ''-''
      @ zfill2 (10 * kg + kh)"
    by (simp only: iso_date_def ka kb kc kd ke kf kg kh py_int_digits2 py_int_digits4)
  also have "\<dots> = s"
    by (simp only: zfill4_decimal zfill2_decimal ka kb kc kd ke kf kg kh s append.simps)
  finally show ?thesis ..
qed

lemma has_form_time_iso:
  assumes "has_form ''HH:MM:SS'' t"
  shows "t = iso_time (py_int (take 2 t)) (py_int (take 2 (drop 3 t))) (py_int (take 2 (drop 6 t)))"
proof -
  from assms obtain a b c d e f where t: "t = [a, b, CHR '':'', c, d, CHR '':'', e, f]"
    and dig: "is_digit a" "is_digit b" "is_digit c" "is_digit d" "is_digit e" "is_digit f"
    by (auto simp: has_form_def fits_def list_all2_Cons1)
  from is_digit_ex [OF dig(1)] obtain ka where ka: "ka < 10" "a = digit_char ka" by blast
  from is_digit_ex [OF dig(2)] obtain kb where kb: "kb < 10" "b = digit_char kb" by blast
  from is_digit_ex [OF dig(3)] obtain kc where kc: "kc < 10" "c = digit_char kc" by blast
  from is_digit_ex [OF dig(4)] obtain kd where kd: "kd < 10" "d = digit_char kd" by blast
  from is_digit_ex [OF dig(5)] obtain ke where ke: "ke < 10" "e = digit_char ke" by blast
  from is_digit_ex [OF dig(6)] obtain kf where kf: "kf < 10" "f = digit_char kf" by blast
  have "take 2 t = [a, b]" "take 2 (drop 3 t) = [c, d]" "take 2 (drop 6 t) = [e, f]"
    by (simp_all add: t)
  then have "iso_time (py_int (take 2 t)) (py_int (take 2 (drop 3 t))) (py_int (take 2 (drop 6 t)))
    = zfill2 (10 * ka + kb) @ '':'' @ zfill2 (10 * kc + kd) @ '':'' @ zfill2 (10 * ke + kf)"
    by (simp only: iso_time_def ka kb kc kd ke kf py_int_digits2)
  also have "\<dots> = t"
    by (simp only: zfill2_decimal ka kb kc kd ke kf t append.simps)
  finally show ?thesis ..
qed

lemma has_form_appendD:
  assumes "has_form (t1 @ t2) s" "length t1 = n"
  shows "has_form t1 (take n s) \<and> has_form t2 (drop n s)"
  using assms unfolding has_form_def by (auto simp: list_all2_append1)

lemma has_form_datetime_parts:
  assumes "has_form ''YYYY-MM-DD HH:MM:SS.mmm'' s"
  shows "has_form ''YYYY-MM-DD'' (take 10 s)" "has_form ''HH:MM:SS'' (take 8 (drop 11 s))"
    "s = take 10 s @ '' '' @ take 8 (drop 11 s) @ drop 19 s" "length (drop 19 s) = 4"
proof -
  from assms have 1: "has_form ''YYYY-MM-DD'' (take 10 s)"
    and r1: "has_form '' HH:MM:SS.mmm'' (drop 10 s)"
    using has_form_appendD [of "''YYYY-MM-DD''" "'' HH:MM:SS.mmm''" s 10] by simp_all
  from r1 have 2: "has_form '' '' (take 1 (drop 10 s))"
    and r2: "has_form ''HH:MM:SS.mmm'' (drop 11 s)"
    using has_form_appendD [of "'' ''" "''HH:MM:SS.mmm''" "drop 10 s" 1] by simp_all
  from r2 have 3: "has_form ''HH:MM:SS'' (take 8 (drop 11 s))"
    and 4: "has_form ''.mmm'' (drop 19 s)"
    using has_form_appendD [of "''HH:MM:SS''" "''.mmm''" "drop 11 s" 8] by simp_all
  from 1 3 show "has_form ''YYYY-MM-DD'' (take 10 s)" "has_form ''HH:MM:SS'' (take 8 (drop 11 s))"
    by simp_all
  from 4 show "length (drop 19 s) = 4"
    unfolding has_form_def by (auto dest: list_all2_lengthD)
  from 2 have sp: "take 1 (drop 10 s) = '' ''"
    by (auto simp: has_form_def fits_def list_all2_Cons1)
  have "s = take 10 s @ drop 10 s"
    by simp
  also have "drop 10 s = take 1 (drop 10 s) @ drop 11 s"
    using append_take_drop_id [of 1 "drop 10 s"] by simp
  also have "drop 11 s = take 8 (drop 11 s) @ drop 19 s"
    using append_take_drop_id [of 8 "drop 11 s"] by simp
  finally show "s = take 10 s @ '' '' @ take 8 (drop 11 s) @ drop 19 s"
    by (simp only: sp)
qed

lemma date_to_datetime_date_form:
  assumes "has_form ''YYYY-MM-DD'' s"
    and "valid_date (digits_at s 0 4) (digits_at s 5 2) (digits_at s 8 2)"
  shows "date_to_datetime s =
    Inr \<lparr>year = digits_at s 0 4, month = digits_at s 5 2, day = digits_at s 8 2,
         hour = 0, minute = 0, second = 0\<rparr>"
proof -
  have "s = iso_date (digits_at s 0 4) (digits_at s 5 2) (digits_at s 8 2)"
    using has_form_date_iso [OF assms(1)] by (simp add: digits_at_def)
  with date_to_datetime_date [OF assms(2)] show ?thesis
    by simp
qed

lemma date_to_datetime_datetime_form:
  assumes "has_form ''YYYY-MM-DD HH:MM:SS.mmm'' s"
    and "valid_date (digits_at s 0 4) (digits_at s 5 2) (digits_at s 8 2)"
    and "valid_time (digits_at s 11 2) (digits_at s 14 2) (digits_at s 17 2)"
  shows "date_to_datetime s =
    Inr \<lparr>year = digits_at s 0 4, month = digits_at s 5 2, day = digits_at s 8 2,
         hour = digits_at s 11 2, minute = digits_at s 14 2, second = digits_at s 17 2\<rparr>"
proof -
  note parts = has_form_datetime_parts [OF assms(1)]
  have "take 10 s = iso_date (digits_at s 0 4) (digits_at s 5 2) (digits_at s 8 2)"
    using has_form_date_iso [OF parts(1)] by (simp add: digits_at_def drop_take)
  moreover have "take 8 (drop 11 s)
      = iso_time (digits_at s 11 2) (digits_at s 14 2) (digits_at s 17 2)"
    using has_form_time_iso [OF parts(2)] by (simp add: digits_at_def drop_take)
  ultimately have "s = iso_date (digits_at s 0 4) (digits_at s 5 2) (digits_at s 8 2) @ '' ''
      @ iso_time (digits_at s 11 2) (digits_at s 14 2) (digits_at s 17 2) @ drop 19 s"
    using parts(3) by simp
  with date_to_datetime_drops_suffix [OF assms(2,3) parts(4)] show ?thesis
    by simp
qed

lemma is_digit_neq:
  "is_digit c \<Longrightarrow> c \<noteq> CHR '':''"
  using not_digit_literal by blast

lemma date_to_datetime_seconds_form:
  assumes "has_form ''YYYY-MM-DD HH:MM:SS'' s"
  shows "strptime (take (length s - 4) s) ''%Y-%m-%d %H:%M:%S'' = Inl ValueError"
    and "strptime s ''%Y-%m-%d'' = Inl ValueError"
    and "date_to_datetime s = Inl ValueError"
proof -
  from assms obtain a b c d e f g h i j k l m n
    where s: "s = [a, b, c, d, CHR ''-'', e, f, CHR ''-'', g, h, CHR '' '', i, j, CHR '':'', k, l,
      CHR '':'', m, n]"
    and dig: "is_digit a" "is_digit b" "is_digit c" "is_digit d" "is_digit e" "is_digit f"
      "is_digit g" "is_digit h" "is_digit i" "is_digit j" "is_digit k" "is_digit l" "is_digit m"
      "is_digit n"
    by (auto simp: has_form_def fits_def list_all2_Cons1)
  have "count_list (take (length s - 4) s) CHR '':'' = 1"
    using dig by (simp add: s is_digit_neq)
  then show first: "strptime (take (length s - 4) s) ''%Y-%m-%d %H:%M:%S'' = Inl ValueError"
    by (intro first_attempt_fails) simp
  have "count_list s CHR '':'' = 2"
    using dig by (simp add: s is_digit_neq)
  then show second: "strptime s ''%Y-%m-%d'' = Inl ValueError"
    by (intro fallback_fails) simp
  from first second show "date_to_datetime s = Inl ValueError"
    by (simp add: date_to_datetime_def)
qed

text \<open>
  C3. For every string of the form \<^verbatim>\<open>YYYY-MM-DD\<close> that denotes a valid calendar date,
  \<open>date_to_datetime\<close> returns the date-time with that year, month and day and with
  hour, minute and second zero. (The first attempt, on the string without its last four
  characters, fails; the fallback parses the whole string.)
\<close>

theorem date_to_datetime_date_only:
  assumes "has_form ''YYYY-MM-DD'' s"
    and "valid_date (digits_at s 0 4) (digits_at s 5 2) (digits_at s 8 2)"
  shows "date_to_datetime s =
    Inr \<lparr>year = digits_at s 0 4, month = digits_at s 5 2, day = digits_at s 8 2,
         hour = 0, minute = 0, second = 0\<rparr>"
  using assms by (rule date_to_datetime_date_form)

theorem date_to_datetime_date_only_witness:
  "has_form ''YYYY-MM-DD'' ''2020-02-29''
   \<and> valid_date (digits_at ''2020-02-29'' 0 4) (digits_at ''2020-02-29'' 5 2)
        (digits_at ''2020-02-29'' 8 2)
   \<and> date_to_datetime ''2020-02-29'' =
        Inr \<lparr>year = 2020, month = 2, day = 29, hour = 0, minute = 0, second = 0\<rparr>"
proof -
  have form: "has_form ''YYYY-MM-DD'' ''2020-02-29''"
    by code_simp
  have fields: "digits_at ''2020-02-29'' 0 4 = 2020" "digits_at ''2020-02-29'' 5 2 = 2"
    "digits_at ''2020-02-29'' 8 2 = 29"
    by code_simp+
  have valid: "valid_date (digits_at ''2020-02-29'' 0 4) (digits_at ''2020-02-29'' 5 2)
      (digits_at ''2020-02-29'' 8 2)"
    by code_simp
  from date_to_datetime_date_only [OF form valid] form valid show ?thesis
    by (simp only: fields simp_thms)
qed

text \<open>
  C4. For every string of the form \<^verbatim>\<open>YYYY-MM-DD HH:MM:SS.mmm\<close> that denotes a valid
  date and time, \<open>date_to_datetime\<close> returns the date-time with that year, month, day,
  hour, minute and second; the millisecond part is dropped. In particular
  \<^verbatim>\<open>"2021-03-04 10:15:30.123"\<close> gives 2021-03-04 10:15:30.
\<close>

theorem date_to_datetime_milliseconds:
  assumes "has_form ''YYYY-MM-DD HH:MM:SS.mmm'' s"
    and "valid_date (digits_at s 0 4) (digits_at s 5 2) (digits_at s 8 2)"
    and "valid_time (digits_at s 11 2) (digits_at s 14 2) (digits_at s 17 2)"
  shows "date_to_datetime s =
      Inr \<lparr>year = digits_at s 0 4, month = digits_at s 5 2, day = digits_at s 8 2,
           hour = digits_at s 11 2, minute = digits_at s 14 2, second = digits_at s 17 2\<rparr>
    \<and> date_to_datetime ''2021-03-04 10:15:30.123'' =
      Inr \<lparr>year = 2021, month = 3, day = 4, hour = 10, minute = 15, second = 30\<rparr>"
proof
  from assms show "date_to_datetime s =
      Inr \<lparr>year = digits_at s 0 4, month = digits_at s 5 2, day = digits_at s 8 2,
           hour = digits_at s 11 2, minute = digits_at s 14 2, second = digits_at s 17 2\<rparr>"
    by (rule date_to_datetime_datetime_form)
  show "date_to_datetime ''2021-03-04 10:15:30.123'' =
      Inr \<lparr>year = 2021, month = 3, day = 4, hour = 10, minute = 15, second = 30\<rparr>"
    by code_simp
qed

theorem date_to_datetime_milliseconds_witness:
  "has_form ''YYYY-MM-DD HH:MM:SS.mmm'' ''1999-12-31 23:59:59.999''
   \<and> valid_date (digits_at ''1999-12-31 23:59:59.999'' 0 4)
        (digits_at ''1999-12-31 23:59:59.999'' 5 2) (digits_at ''1999-12-31 23:59:59.999'' 8 2)
   \<and> valid_time (digits_at ''1999-12-31 23:59:59.999'' 11 2)
        (digits_at ''1999-12-31 23:59:59.999'' 14 2) (digits_at ''1999-12-31 23:59:59.999'' 17 2)
   \<and> date_to_datetime ''1999-12-31 23:59:59.999'' =
        Inr \<lparr>year = 1999, month = 12, day = 31, hour = 23, minute = 59, second = 59\<rparr>"
proof -
  let ?s = "''1999-12-31 23:59:59.999''"
  have form: "has_form ''YYYY-MM-DD HH:MM:SS.mmm'' ?s"
    by code_simp
  have fields: "digits_at ?s 0 4 = 1999" "digits_at ?s 5 2 = 12" "digits_at ?s 8 2 = 31"
    "digits_at ?s 11 2 = 23" "digits_at ?s 14 2 = 59" "digits_at ?s 17 2 = 59"
    by code_simp+
  have valid: "valid_date (digits_at ?s 0 4) (digits_at ?s 5 2) (digits_at ?s 8 2)"
    "valid_time (digits_at ?s 11 2) (digits_at ?s 14 2) (digits_at ?s 17 2)"
    by code_simp+
  from date_to_datetime_milliseconds [OF form valid] form valid show ?thesis
    by (simp only: fields simp_thms)
qed




text \<open>
  C10. For every string of the form \<^verbatim>\<open>YYYY-MM-DD HH:MM:SS\<close>, without the millisecond
  suffix, \<open>date_to_datetime\<close> fails with the parse error: the string without its last
  four characters fails the first attempt, and the whole string fails the date-only
  fallback. This holds whether or not the string denotes a valid date and time.
\<close>

theorem date_to_datetime_without_milliseconds:
  assumes "has_form ''YYYY-MM-DD HH:MM:SS'' s"
  shows "strptime (take (length s - 4) s) ''%Y-%m-%d %H:%M:%S'' = Inl ValueError
    \<and> strptime s ''%Y-%m-%d'' = Inl ValueError
    \<and> date_to_datetime s = Inl ValueError"
  using date_to_datetime_seconds_form [OF assms] by simp

theorem date_to_datetime_without_milliseconds_witness:
  "has_form ''YYYY-MM-DD HH:MM:SS'' ''2021-03-04 10:15:30''
   \<and> valid_date (digits_at ''2021-03-04 10:15:30'' 0 4) (digits_at ''2021-03-04 10:15:30'' 5 2)
        (digits_at ''2021-03-04 10:15:30'' 8 2)
   \<and> valid_time (digits_at ''2021-03-04 10:15:30'' 11 2) (digits_at ''2021-03-04 10:15:30'' 14 2)
        (digits_at ''2021-03-04 10:15:30'' 17 2)
   \<and> date_to_datetime ''2021-03-04 10:15:30'' = Inl ValueError"
proof -
  have form: "has_form ''YYYY-MM-DD HH:MM:SS'' ''2021-03-04 10:15:30''"
    by code_simp
  have valid: "valid_date (digits_at ''2021-03-04 10:15:30'' 0 4)
      (digits_at ''2021-03-04 10:15:30'' 5 2) (digits_at ''2021-03-04 10:15:30'' 8 2)
    \<and> valid_time (digits_at ''2021-03-04 10:15:30'' 11 2)
      (digits_at ''2021-03-04 10:15:30'' 14 2) (digits_at ''2021-03-04 10:15:30'' 17 2)"
    by code_simp
  from date_to_datetime_without_milliseconds [OF form] form valid show ?thesis
    by blast
qed

subsection \<open>Binarizer\<close>

text \<open>
  C2. For every sequence and every target value, \<open>binarise\<close> returns a sequence of the
  same length whose i-th element is 1 if the i-th input element equals the target and 0
  otherwise. Equality is exact: a string that differs from the target in case only gives
  0. The example of the specification, \<open>binarise ["A","B","A"] "A" = [1,0,1]\<close>, is
  part of the statement.
\<close>

theorem binarise_spec:
  "length (binarise xs v) = length xs
   \<and> (\<forall>i < length xs. binarise xs v ! i = (if xs ! i = v then 1 else 0))
   \<and> binarise [''A'', ''B'', ''A''] ''A'' = [1, 0, 1]
   \<and> binarise [''a'', ''A ''] ''A'' = [0, 0]"
  by (simp add: binarise_def)

theorem binarise_spec_witness:
  "length (binarise [''Opened'', ''Error''] ''Error'') = 2
   \<and> binarise [''Opened'', ''Error''] ''Error'' ! 1 = 1
   \<and> binarise [''Opened'', ''Error''] ''Error'' ! 0 = 0"
  using binarise_spec [of "[''Opened'', ''Error'']" "''Error''"]
  by (simp add: binarise_def)

subsection \<open>Smoother\<close>

declare bit_length.simps [simp del]

lemma map_result_length: "map_result f xs = Inr ys \<Longrightarrow> length ys = length xs"
  by (induction xs arbitrary: ys) (auto split: sum.splits)

lemma map_result_id: "(\<And>x. x \<in> set xs \<Longrightarrow> f x = Inr x) \<Longrightarrow> map_result f xs = Inr xs"
  by (induction xs) auto

lemma map_result_checked_Some: "map_result checked (map Some xs) = Inr xs"
  by (induction xs) (auto simp: checked_def)

lemma length_convolve_full: "length (convolve_full a v) = length a + length v - 1"
  by (simp add: convolve_full_def)

lemma np_convolve_same_length:
  assumes "np_convolve_same a v = Inr ys"
  shows "length ys = max (length a) (length v)"
proof -
  have mid: "min (n + m - Suc ((m - Suc 0) div 2)) n = n" if "0 < m" for n m :: nat
    using that by (cases m) auto
  from assms show ?thesis
    by (auto simp: np_convolve_same_def length_convolve_full Let_def mid
        dest!: map_result_length split: if_splits)
qed

text \<open>
  What the code does about lengths: the result is as long as the longer of the data and
  the kernel.
\<close>

lemma moving_average_length:
  assumes "moving_average xs w = Inr ys"
  shows "length ys = max (length xs) (nat w)"
proof -
  from assms obtain weights a where k: "map_result (\<lambda>x. float64 (x / of_int w)) (replicate (nat w) 1) = Inr weights"
    and a: "map_result float64 xs = Inr a" and c: "np_convolve_same a weights = Inr ys"
    by (auto simp: moving_average_def np_ones_def split: if_splits sum.splits)
  from map_result_length [OF k] map_result_length [OF a] np_convolve_same_length [OF c]
  show ?thesis by simp
qed

text \<open>With window 1 the kernel is \<open>[1.0]\<close>, and a \<^verbatim>\<open>float64\<close> times 1 plus 0 is itself.\<close>

lemma fl64_one: "fl64 1 = Some 1"
  by code_simp

lemma dot_one: "is_float64 x \<Longrightarrow> dot 0 [(x, 1)] = Some x"
  by (simp add: is_float64_def)

lemma convolve_full_one:
  assumes "\<And>x. x \<in> set xs \<Longrightarrow> is_float64 x"
  shows "convolve_full xs [1] = map Some xs"
proof (rule nth_equalityI)
  show "length (convolve_full xs [1]) = length (map Some xs)"
    by (simp add: length_convolve_full)
  fix k
  assume "k < length (convolve_full xs [1])"
  then have k: "k < length xs"
    by (simp add: length_convolve_full)
  then have "is_float64 (xs ! k)"
    using assms by simp
  with k show "convolve_full xs [1] ! k = map Some xs ! k"
    by (simp add: convolve_full_def dot_one del: dot.simps)
qed

lemma moving_average_window_one:
  assumes "xs \<noteq> []" "\<And>x. x \<in> set xs \<Longrightarrow> is_float64 x"
  shows "moving_average xs 1 = Inr xs"
proof -
  have "map_result float64 xs = Inr xs"
    using assms(2) by (intro map_result_id) (simp add: float64_def checked_def is_float64_def)
  moreover have "np_convolve_same xs [1] = Inr xs"
    using assms(1) convolve_full_one [OF assms(2)]
    by (simp add: np_convolve_same_def map_result_checked_Some)
  ultimately show ?thesis
    by (simp add: moving_average_def np_ones_def float64_def checked_def fl64_one)
qed

text \<open>
  C1. The claim is that the output of \<open>moving_average\<close> is as long as its input for
  every positive window, also when the window exceeds the length of the sequence, which
  is what the docstring promises (``the averaged data, in the same size array''). The
  code does not do that: for the two-element sequence \<open>[1, 2]\<close> and window 3 it
  returns three elements: the \<^verbatim>\<open>float64\<close> nearest to 1/3, then 1 and 1.
\<close>

theorem moving_average_window_exceeds_length:
  "moving_average [1, 2] 3 = Inr [6004799503160661 / 18014398509481984, 1, 1]
   \<and> length [6004799503160661 / 18014398509481984, 1, 1 :: rat] \<noteq> length [1, 2 :: rat]"
  by code_simp

text \<open>
  C8, as stated, for the empty sequence and for the one-element sequence of the integer
  \<open>2^53 + 1\<close>: smoothing the first with window 1 raises \<^verbatim>\<open>ValueError\<close> and is not the
  empty sequence, and smoothing the second returns \<open>2^53\<close>, the nearest
  \<^verbatim>\<open>float64\<close>, not the input.
\<close>

theorem moving_average_identity_counterexample:
  "moving_average [] 1 = Inl ValueError
   \<and> moving_average [9007199254740993] 1 = Inr [9007199254740992]"
  by code_simp

text \<open>
  C8, amended. For every non-empty sequence of finite \<^verbatim>\<open>float64\<close> values, smoothing
  with window 1 returns the sequence itself; and \<open>[0,0,1,0,0]\<close> smoothed with window 3
  is \<open>[0, t, t, t, 0]\<close>, where \<open>t\<close>, the third element, is the \<^verbatim>\<open>float64\<close> nearest
  to 1/3 (the value of Python's \<^verbatim>\<open>1/3\<close>).
\<close>

theorem moving_average_identity:
  "(xs \<noteq> [] \<and> (\<forall>x \<in> set xs. is_float64 x) \<longrightarrow> moving_average xs 1 = Inr xs)
   \<and> moving_average [0, 0, 1, 0, 0] 3 =
       Inr [0, 6004799503160661 / 18014398509481984, 6004799503160661 / 18014398509481984,
            6004799503160661 / 18014398509481984, 0]
   \<and> fl64 (1 / 3) = Some (6004799503160661 / 18014398509481984)"
proof (intro conjI)
  show "xs \<noteq> [] \<and> (\<forall>x \<in> set xs. is_float64 x) \<longrightarrow> moving_average xs 1 = Inr xs"
    using moving_average_window_one by blast
  show "moving_average [0, 0, 1, 0, 0] 3 =
      Inr [0, 6004799503160661 / 18014398509481984, 6004799503160661 / 18014398509481984,
           6004799503160661 / 18014398509481984, 0]"
    by code_simp
  show "fl64 (1 / 3) = Some (6004799503160661 / 18014398509481984)"
    by code_simp
qed

theorem moving_average_identity_witness:
  "[5, 7 / 2, 3 / 8] \<noteq> ([] :: rat list)
   \<and> is_float64 5 \<and> is_float64 (7 / 2) \<and> is_float64 (3 / 8)
   \<and> moving_average [5, 7 / 2, 3 / 8] 1 = Inr [5, 7 / 2, 3 / 8]"
proof -
  have f: "is_float64 5" "is_float64 (7 / 2)" "is_float64 (3 / 8)"
    by code_simp+
  then have "\<forall>x \<in> set [5, 7 / 2, 3 / 8 :: rat]. is_float64 x"
    by simp
  with moving_average_identity [of "[5, 7 / 2, 3 / 8]"] f show ?thesis
    by simp
qed

subsection \<open>DailyAggregator\<close>

lemma mean_unit_interval:
  assumes "set xs \<subseteq> {0, 1}"
  shows "0 \<le> mean xs \<and> mean xs \<le> 1"
proof -
  from assms have "0 \<le> sum_list xs \<and> sum_list xs \<le> int (length xs)"
    by (induction xs) auto
  then have "0 \<le> (of_int (sum_list xs) :: rat)" "(of_int (sum_list xs) :: rat) \<le> of_nat (length xs)"
    by (simp_all add: of_int_le_iff [symmetric] del: of_int_le_iff)
  then show ?thesis
    unfolding mean_def by (cases "length xs = 0") (simp_all add: divide_le_eq)
qed

lemma group_means_keys: "map fst (group_means keys vals) = sort (remdups keys)"
  by (simp add: group_means_def comp_def)

lemma group_means_values:
  assumes "set vals \<subseteq> {0, 1}" "(k, v) \<in> set (group_means keys vals)"
  shows "0 \<le> v \<and> v \<le> 1"
proof -
  from assms(2) have "v = mean (map snd (filter (\<lambda>(k', v). k' = k) (zip keys vals)))"
    by (auto simp: group_means_def)
  moreover have "set (map snd (filter (\<lambda>(k', v). k' = k) (zip keys vals))) \<subseteq> set vals"
    by (auto dest: set_zip_rightD)
  ultimately show ?thesis
    using mean_unit_interval assms(1) by blast
qed

lemma groupby_mean_series:
  assumes "map_of df ''day'' = Some (StrCol days)" "map_of df c = Some (IntCol ind)"
    and "set ind \<subseteq> {0, 1}"
  shows "\<exists>series. groupby_mean df ''day'' c = Inr series
    \<and> distinct (map fst series) \<and> set (map fst series) = set days
    \<and> length series = card (set days) \<and> sorted (map fst series)
    \<and> (\<forall>(k, v) \<in> set series. 0 \<le> v \<and> v \<le> 1)"
proof -
  have "groupby_mean df ''day'' c = Inr (group_means days ind)"
    using assms(1,2) by (simp add: groupby_mean_def getitem_def)
  moreover have "length (group_means days ind) = card (set days)"
    using arg_cong [OF group_means_keys [of days ind], of length]
    by (simp add: length_remdups_card_conv)
  moreover have "distinct (map fst (group_means days ind))"
    "set (map fst (group_means days ind)) = set days"
    "sorted (map fst (group_means days ind))"
    unfolding group_means_keys by simp_all
  moreover have "\<forall>(k, v) \<in> set (group_means days ind). 0 \<le> v \<and> v \<le> 1"
    using group_means_values [OF assms(3)] by blast
  ultimately show ?thesis
    by blast
qed

text \<open>
  C6. For every table with a \<^verbatim>\<open>day\<close> key column and a 0/1 indicator column, the
  group-by-mean step returns a series with exactly one entry per distinct day of the
  table, in ascending order of the day, and every value of the series lies in the closed
  interval from 0 to 1.
\<close>

theorem groupby_mean_daily:
  assumes "map_of df ''day'' = Some (StrCol days)" "map_of df c = Some (IntCol ind)"
    and "set ind \<subseteq> {0, 1}"
  shows "\<exists>series. groupby_mean df ''day'' c = Inr series
    \<and> distinct (map fst series) \<and> set (map fst series) = set days
    \<and> length series = card (set days) \<and> sorted (map fst series)
    \<and> (\<forall>(k, v) \<in> set series. 0 \<le> v \<and> v \<le> 1)"
  using assms by (rule groupby_mean_series)

theorem groupby_mean_daily_witness:
  "map_of [(''day'', StrCol [''2021-01-02'', ''2021-01-01'', ''2021-01-02'']),
           (''Opened'', IntCol [1, 0, 0])] ''day''
     = Some (StrCol [''2021-01-02'', ''2021-01-01'', ''2021-01-02''])
   \<and> map_of [(''day'', StrCol [''2021-01-02'', ''2021-01-01'', ''2021-01-02'']),
           (''Opened'', IntCol [1, 0, 0])] ''Opened'' = Some (IntCol [1, 0, 0])
   \<and> set [1, 0, 0 :: int] \<subseteq> {0, 1}
   \<and> groupby_mean [(''day'', StrCol [''2021-01-02'', ''2021-01-01'', ''2021-01-02'']),
           (''Opened'', IntCol [1, 0, 0])] ''day'' ''Opened''
     = Inr [(''2021-01-01'', 0), (''2021-01-02'', 1 / 2)]"
proof -
  let ?df = "[(''day'', StrCol [''2021-01-02'', ''2021-01-01'', ''2021-01-02'']),
    (''Opened'', IntCol [1, 0, 0])]"
  have day: "map_of ?df ''day'' = Some (StrCol [''2021-01-02'', ''2021-01-01'', ''2021-01-02''])"
    and ind: "map_of ?df ''Opened'' = Some (IntCol [1, 0, 0])"
    and bits: "set [1, 0, 0 :: int] \<subseteq> {0, 1}"
    by simp_all
  have run: "groupby_mean ?df ''day'' ''Opened'' = Inr [(''2021-01-01'', 0), (''2021-01-02'', 1 / 2)]"
    by code_simp
  from groupby_mean_daily [OF day ind bits] day ind bits run show ?thesis
    by blast
qed

subsection \<open>End-to-end scenario\<close>

text \<open>
  C7. For the table of four rows, all of day 2021-01-01, with statuses Opened, Opened,
  Error, Clicked, the per-day rates are 1/2 for Opened, 1/4 for Error, 1/4 for Clicked
  and 0 for Unsubscribed (and \<open>get_interactions\<close> with window 1 returns them as they
  are), and the time axis of \<open>get_times\<close> has exactly one entry, the number of
  2021-01-01 00:00:00.
\<close>

theorem scenario_rates_and_times:
  "value_of (daily_rate scenario_store 0 ''Opened'') = Inr [1 / 2]
   \<and> value_of (daily_rate scenario_store 0 ''Error'') = Inr [1 / 4]
   \<and> value_of (daily_rate scenario_store 0 ''Clicked'') = Inr [1 / 4]
   \<and> value_of (daily_rate scenario_store 0 ''Unsubscribed'') = Inr [0]
   \<and> value_of (get_interactions scenario_store 0 ''Opened'' 1) = Inr [1 / 2]
   \<and> value_of (get_interactions scenario_store 0 ''Error'' 1) = Inr [1 / 4]
   \<and> value_of (get_interactions scenario_store 0 ''Clicked'' 1) = Inr [1 / 4]
   \<and> value_of (get_interactions scenario_store 0 ''Unsubscribed'' 1) = Inr [0]
   \<and> value_of (get_times date2num scenario_store 0) =
        Inr [date2num \<lparr>year = 2021, month = 1, day = 1, hour = 0, minute = 0, second = 0\<rparr>]"
proof (intro conjI)
  show "value_of (daily_rate scenario_store 0 ''Opened'') = Inr [1 / 2]"
    by code_simp
  show "value_of (daily_rate scenario_store 0 ''Error'') = Inr [1 / 4]"
    by code_simp
  show "value_of (daily_rate scenario_store 0 ''Clicked'') = Inr [1 / 4]"
    by code_simp
  show "value_of (daily_rate scenario_store 0 ''Unsubscribed'') = Inr [0]"
    by code_simp
  show "value_of (get_interactions scenario_store 0 ''Opened'' 1) = Inr [1 / 2]"
    by code_simp
  show "value_of (get_interactions scenario_store 0 ''Error'' 1) = Inr [1 / 4]"
    by code_simp
  show "value_of (get_interactions scenario_store 0 ''Clicked'' 1) = Inr [1 / 4]"
    by code_simp
  show "value_of (get_interactions scenario_store 0 ''Unsubscribed'' 1) = Inr [0]"
    by code_simp
  show "value_of (get_times date2num scenario_store 0) =
      Inr [date2num \<lparr>year = 2021, month = 1, day = 1, hour = 0, minute = 0, second = 0\<rparr>]"
    by code_simp
qed

subsection \<open>Table-level Binarizer\<close>

lemma update_fresh: "k \<notin> fst ` set al \<Longrightarrow> AList.update k v al = al @ [(k, v)]"
  by (induction al) auto

lemma length_binarise: "length (binarise xs v) = length xs"
  by (simp add: binarise_def)

lemma length_cells: "length (cells c) = col_len c"
  by (cases c) simp_all

lemma col_len_indicator: "col_len (indicator src v) = col_len src"
  by (simp add: indicator_def length_binarise length_cells)

lemma nrows_update:
  "df \<noteq> [] \<Longrightarrow> col_len c = nrows df \<Longrightarrow> nrows (AList.update k c df) = nrows df"
  by (cases df) (auto simp: nrows_def)

lemma snd_update: "set (map snd (AList.update k c df)) \<subseteq> insert c (set (map snd df))"
  by (induction df) auto

lemma well_formed_update:
  assumes "well_formed df" "df \<noteq> []" "col_len c = nrows df"
  shows "well_formed (AList.update k c df)"
proof -
  have "distinct (map fst (AList.update k c df))"
    using assms(1) by (simp add: well_formed_def distinct_update)
  moreover have "col_len x = nrows df" if "x \<in> set (map snd (AList.update k c df))" for x
  proof -
    from that snd_update [of k c df] have "x = c \<or> x \<in> set (map snd df)"
      by blast
    with assms(1,3) show ?thesis
      unfolding well_formed_def by blast
  qed
  ultimately show ?thesis
    unfolding well_formed_def nrows_update [OF assms(2,3)] by blast
qed

lemma binarise_df_missing:
  "map_of (frames st r) column = None \<Longrightarrow> binarise_df st r v column = Inl KeyError"
  by (simp add: binarise_df_def getitem_def)

lemma binarise_df_present:
  assumes "map_of (frames st r) column = Some src" "well_formed (frames st r)"
  shows "binarise_df st r v column =
      Inr (r, st\<lparr>frames := (frames st)
        (r := AList.update v (indicator src v) (frames st r))\<rparr>)"
    and "nrows (AList.update v (indicator src v) (frames st r)) = nrows (frames st r)"
    and "well_formed (AList.update v (indicator src v) (frames st r))"
proof -
  let ?df = "frames st r"
  from assms(1) have mem: "(column, src) \<in> set ?df"
    by (rule map_of_SomeD)
  then have ne: "?df \<noteq> []"
    by auto
  from mem assms(2) have len: "col_len (indicator src v) = nrows ?df"
    by (force simp: well_formed_def col_len_indicator)
  show "binarise_df st r v column =
      Inr (r, st\<lparr>frames := (frames st) (r := AList.update v (indicator src v) ?df)\<rparr>)"
    using assms(1) len
    by (simp add: binarise_df_def getitem_def setitem_def indicator_def)
  show "nrows (AList.update v (indicator src v) ?df) = nrows ?df"
    using ne len by (rule nrows_update)
  show "well_formed (AList.update v (indicator src v) ?df)"
    using assms(2) ne len by (rule well_formed_update)
qed

text \<open>
  C9, as stated, for a frame whose only column \<^verbatim>\<open>status\<close> holds the values
  \<^verbatim>\<open>"status"\<close> and \<^verbatim>\<open>"Opened"\<close>, with target \<^verbatim>\<open>"status"\<close>: the call adds no
  column, and the contents of the column that was there are replaced by the indicator.
\<close>

theorem binarise_df_frame_counterexample:
  "frame_of (binarise_df clash_store 0 ''status'' ''status'') = Inr [(''status'', IntCol [1, 0])]"
  by code_simp

text \<open>
  C9, amended. For every well-formed table:
  \<^item> if the table has no source column, \<open>binarise_df\<close> raises \<^verbatim>\<open>KeyError\<close>;
  \<^item> if it has the source column, \<open>binarise_df\<close> returns the reference it was given,
    and the only change to the store is to the frame behind that reference, which
    keeps its number of rows and is still well formed;
  \<^item> if moreover no column is named like the target value, the frame has one more
    column, after the others, named after the target value and holding the indicator
    of the source column, and the columns that were there are unchanged;
  \<^item> if a column is already named like the target value, no column is added: the names
    of the columns and their order are unchanged, the column of that name now holds
    the indicator of the source column, and every other column is unchanged.
\<close>

theorem binarise_df_frame:
  assumes "well_formed (frames st r)"
  shows "(map_of (frames st r) column = None \<longrightarrow> binarise_df st r v column = Inl KeyError)
    \<and> (map_of (frames st r) column = Some src \<longrightarrow>
         binarise_df st r v column =
           Inr (r, st\<lparr>frames := (frames st)
             (r := AList.update v (indicator src v) (frames st r))\<rparr>)
         \<and> nrows (AList.update v (indicator src v) (frames st r)) = nrows (frames st r)
         \<and> well_formed (AList.update v (indicator src v) (frames st r)))
    \<and> (v \<notin> fst ` set (frames st r) \<longrightarrow>
         AList.update v (indicator src v) (frames st r) = frames st r @ [(v, indicator src v)])
    \<and> (v \<in> fst ` set (frames st r) \<longrightarrow>
         map fst (AList.update v (indicator src v) (frames st r)) = map fst (frames st r)
         \<and> map_of (AList.update v (indicator src v) (frames st r)) v = Some (indicator src v)
         \<and> (\<forall>name. name \<noteq> v \<longrightarrow>
               map_of (AList.update v (indicator src v) (frames st r)) name
                 = map_of (frames st r) name))"
proof (intro conjI impI allI)
  assume "map_of (frames st r) column = None"
  then show "binarise_df st r v column = Inl KeyError"
    by (rule binarise_df_missing)
next
  assume src: "map_of (frames st r) column = Some src"
  from binarise_df_present [OF src assms]
  show "binarise_df st r v column =
      Inr (r, st\<lparr>frames := (frames st) (r := AList.update v (indicator src v) (frames st r))\<rparr>)"
    and "nrows (AList.update v (indicator src v) (frames st r)) = nrows (frames st r)"
    and "well_formed (AList.update v (indicator src v) (frames st r))"
    by simp_all
next
  assume "v \<notin> fst ` set (frames st r)"
  then show "AList.update v (indicator src v) (frames st r) = frames st r @ [(v, indicator src v)]"
    by (rule update_fresh)
next
  assume "v \<in> fst ` set (frames st r)"
  then show "map fst (AList.update v (indicator src v) (frames st r)) = map fst (frames st r)"
    by (simp add: update_keys)
next
  show "map_of (AList.update v (indicator src v) (frames st r)) v = Some (indicator src v)"
    by (simp add: update_conv')
next
  fix name
  assume "name \<noteq> v"
  then show "map_of (AList.update v (indicator src v) (frames st r)) name
      = map_of (frames st r) name"
    by (simp add: update_conv')
qed

theorem binarise_df_frame_witness:
  "well_formed (frames scenario_store 0)
   \<and> map_of (frames scenario_store 0) ''colour'' = None
   \<and> binarise_df scenario_store 0 ''Error'' ''colour'' = Inl KeyError
   \<and> map_of (frames scenario_store 0) ''status''
       = Some (StrCol [''Opened'', ''Opened'', ''Error'', ''Clicked''])
   \<and> ''Error'' \<notin> fst ` set (frames scenario_store 0)
   \<and> frame_of (binarise_df scenario_store 0 ''Error'' ''status'')
       = Inr (scenario_table @ [(''Error'', IntCol [0, 0, 1, 0])])
   \<and> well_formed (frames clash_store 0)
   \<and> map_of (frames clash_store 0) ''status'' = Some (StrCol [''status'', ''Opened''])
   \<and> ''status'' \<in> fst ` set (frames clash_store 0)
   \<and> frame_of (binarise_df clash_store 0 ''status'' ''status'')
       = Inr [(''status'', IntCol [1, 0])]"
proof -
  have tbl: "frames scenario_store 0 = scenario_table"
    and clash: "frames clash_store 0 = [(''status'', StrCol [''status'', ''Opened''])]"
    by (simp_all add: scenario_store_def clash_store_def)
  have wf: "well_formed (frames scenario_store 0)" "well_formed (frames clash_store 0)"
    by (simp_all add: tbl clash scenario_table_def well_formed_def nrows_def)
  have none: "map_of (frames scenario_store 0) ''colour'' = None"
    and src: "map_of (frames scenario_store 0) ''status''
      = Some (StrCol [''Opened'', ''Opened'', ''Error'', ''Clicked''])"
    and new: "''Error'' \<notin> fst ` set (frames scenario_store 0)"
    by (simp_all add: tbl scenario_table_def)
  have src': "map_of (frames clash_store 0) ''status'' = Some (StrCol [''status'', ''Opened''])"
    and old: "''status'' \<in> fst ` set (frames clash_store 0)"
    by (simp_all add: clash)
  note a = binarise_df_frame [OF wf(1), where column = "''colour''" and v = "''Error''"]
  note b = binarise_df_frame [OF wf(1), where column = "''status''" and v = "''Error''"
      and src = "StrCol [''Opened'', ''Opened'', ''Error'', ''Clicked'']"]
  note c = binarise_df_frame [OF wf(2), where column = "''status''" and v = "''status''"
      and src = "StrCol [''status'', ''Opened'']"]
  from a none have 1: "binarise_df scenario_store 0 ''Error'' ''colour'' = Inl KeyError"
    by blast
  from b src new have 2: "frame_of (binarise_df scenario_store 0 ''Error'' ''status'')
      = Inr (scenario_table @ [(''Error'', IntCol [0, 0, 1, 0])])"
    by (simp add: frame_of_def tbl indicator_def binarise_def)
  from c src' have 3: "frame_of (binarise_df clash_store 0 ''status'' ''status'')
      = Inr [(''status'', IntCol [1, 0])]"
    by (simp add: frame_of_def clash indicator_def binarise_def)
  from wf none src new src' old 1 2 3 show ?thesis
    by blast
qed

end
